theory Spec2Isabelle
  imports Main
begin

section \<open>Values of the request and errors\<close>

text \<open>
  The handler of \<^verbatim>\<open>/scrape-options\<close> (\<^verbatim>\<open>src/server.js\<close>) destructures five
  properties of \<^verbatim>\<open>req.query\<close>. A property is absent (\<^verbatim>\<open>undefined\<close>) or a
  string. Strings are lists of code units; \<^typ>\<open>char\<close> holds the code units below
  256.
\<close>

datatype jsval = Undefined | Str string

text \<open>JavaScript truthiness: \<^verbatim>\<open>undefined\<close> and the empty string are falsy.\<close>

fun truthy :: "jsval \<Rightarrow> bool" where
  "truthy Undefined = False"
| "truthy (Str s) = (s \<noteq> [])"

text \<open>Interpolation of a value into a template literal, \<^verbatim>\<open>`${v}`\<close>.\<close>

fun to_string :: "jsval \<Rightarrow> string" where
  "to_string Undefined = ''undefined''"
| "to_string (Str s) = s"

record query =
  makeId :: jsval
  modelId :: jsval
  yearId :: jsval
  countryId :: jsval
  fuelId :: jsval

text \<open>A thrown JavaScript error; only its \<^verbatim>\<open>message\<close> is ever read.\<close>

datatype js_error = Error (message: string)

section \<open>The page driven through puppeteer\<close>

text \<open>
  The state of the first element matching a CSS selector: not in the DOM, in the DOM
  but not visible, or visible.
\<close>

datatype presence = Absent | Hidden | Visible

text \<open>
  The options of \<^verbatim>\<open>page.waitForSelector\<close>: none (the element is in the DOM),
  \<^verbatim>\<open>{visible: true}\<close> (in the DOM and visible), \<^verbatim>\<open>{hidden: true}\<close> (not in
  the DOM, or not visible).
\<close>

datatype wait_for = Present | VisibleTrue | HiddenTrue

fun satisfied :: "wait_for \<Rightarrow> presence \<Rightarrow> bool" where
  "satisfied Present s = (s \<noteq> Absent)"
| "satisfied VisibleTrue s = (s = Visible)"
| "satisfied HiddenTrue s = (s \<noteq> Visible)"

text \<open>
  Every call the program makes on puppeteer, the browser, the page or the console, in
  the order it is issued. \<^verbatim>\<open>Query\<close> is \<^verbatim>\<open>page.$\<close>, \<^verbatim>\<open>EvalAll\<close> is
  \<^verbatim>\<open>page.$$eval\<close>; timeouts are in milliseconds.
\<close>

datatype call =
    Launch
  | NewPage
  | SetUserAgent string
  | SetDefaultNavigationTimeout nat
  | Goto string nat
  | Select string jsval
  | WaitForSelector string wait_for nat
  | Query string
  | EvalAll string
  | Close
  | ConsoleError string js_error

text \<open>
  The external world, of any type \<open>'w\<close>. \<open>perform\<close> is the effect of a command
  (launching, navigating, selecting a value) or the error it throws; \<open>tick\<close> lets one
  millisecond pass; \<open>probe\<close> and \<open>matches\<close> observe the DOM: the state of the first
  element matching a selector, and the \<^verbatim>\<open>value\<close> and \<^verbatim>\<open>textContent\<close> of all
  matching elements in document order. \<open>timeout_error\<close> is the error puppeteer
  throws when a wait for a selector exceeds its timeout. Observations take no time.
\<close>

record 'w env =
  perform :: "'w \<Rightarrow> call \<Rightarrow> js_error + 'w"
  tick :: "'w \<Rightarrow> 'w"
  probe :: "'w \<Rightarrow> string \<Rightarrow> presence"
  matches :: "'w \<Rightarrow> string \<Rightarrow> (string \<times> string) list"
  timeout_error :: "string \<Rightarrow> nat \<Rightarrow> js_error"

text \<open>The state the program threads: the world and the calls issued so far.\<close>

record 'w page =
  world :: 'w
  calls :: "call list"

type_synonym ('w, 'a) action = "'w page \<Rightarrow> (js_error + 'a) \<times> 'w page"

definition succeed :: "'a \<Rightarrow> ('w, 'a) action" where
  "succeed a p = (Inr a, p)"

definition throw :: "js_error \<Rightarrow> ('w, 'a) action" where
  "throw e p = (Inl e, p)"

text \<open>\<^verbatim>\<open>await m; f\<close>: an exception of \<open>m\<close> skips \<open>f\<close>.\<close>

definition and_then :: "('w, 'a) action \<Rightarrow> ('a \<Rightarrow> ('w, 'b) action) \<Rightarrow> ('w, 'b) action" where
  "and_then m f p = (case m p of (Inl e, p') \<Rightarrow> (Inl e, p') | (Inr a, p') \<Rightarrow> f a p')"

text \<open>\<^verbatim>\<open>try { m } catch (err) { h }\<close>.\<close>

definition try_catch :: "('w, 'a) action \<Rightarrow> (js_error \<Rightarrow> ('w, 'a) action) \<Rightarrow> ('w, 'a) action" where
  "try_catch m h p = (case m p of (Inl e, p') \<Rightarrow> h e p' | (Inr a, p') \<Rightarrow> (Inr a, p'))"

definition logged :: "call \<Rightarrow> 'w page \<Rightarrow> 'w page" where
  "logged c p = p\<lparr>calls := calls p @ [c]\<rparr>"

definition command :: "'w env \<Rightarrow> call \<Rightarrow> ('w, unit) action" where
  "command E c p =
     (case perform E (world p) c of
        Inl e \<Rightarrow> (Inl e, logged c p)
      | Inr w \<Rightarrow> (Inr (), logged c (p\<lparr>world := w\<rparr>)))"

definition console_error :: "string \<Rightarrow> js_error \<Rightarrow> ('w, unit) action" where
  "console_error s e p = (Inr (), logged (ConsoleError s e) p)"

subsection \<open>Waiting for a selector\<close>

text \<open>
  \<open>poll t c n w\<close>: the number of ticks after which the condition \<open>c\<close> first holds,
  looking at the world now and after each of the next \<open>n\<close> ticks.
\<close>

fun poll :: "('w \<Rightarrow> 'w) \<Rightarrow> ('w \<Rightarrow> bool) \<Rightarrow> nat \<Rightarrow> 'w \<Rightarrow> nat option" where
  "poll t c 0 w = (if c w then Some 0 else None)"
| "poll t c (Suc n) w = (if c w then Some 0 else map_option Suc (poll t c n (t w)))"

text \<open>
  A pending promise, by what will become of it: the time after which it settles and
  the error it rejects with, if it rejects.
\<close>

record promise =
  settles :: nat
  rejection :: "js_error option"

text \<open>
  What becomes of a wait for a selector that starts in the world \<open>w\<close>: it resolves
  when the condition first holds, and rejects after \<open>ms\<close> milliseconds when it never
  does.
\<close>

definition settle :: "'w env \<Rightarrow> 'w \<Rightarrow> string \<Rightarrow> wait_for \<Rightarrow> nat \<Rightarrow> promise" where
  "settle E w sel opt ms =
     (case poll (tick E) (\<lambda>w'. satisfied opt (probe E w' sel)) ms w of
        Some k \<Rightarrow> \<lparr>settles = k, rejection = None\<rparr>
      | None \<Rightarrow> \<lparr>settles = ms, rejection = Some (timeout_error E sel ms)\<rparr>)"

text \<open>
  \<^verbatim>\<open>page.waitForSelector(sel, {..., timeout: ms})\<close> without \<^verbatim>\<open>await\<close>: the call
  is issued and the promise returned.
\<close>

definition waitForSelector :: "'w env \<Rightarrow> string \<Rightarrow> wait_for \<Rightarrow> nat \<Rightarrow> 'w page \<Rightarrow> promise \<times> 'w page" where
  "waitForSelector E sel opt ms p =
     (settle E (world p) sel opt ms, logged (WaitForSelector sel opt ms) p)"

text \<open>
  \<^verbatim>\<open>Promise.race([a, b])\<close> settles as the first of the two to settle does; when
  both settle at the same moment, as the first of the array.
\<close>

definition race :: "promise \<Rightarrow> promise \<Rightarrow> promise" where
  "race a b = (if settles a \<le> settles b then a else b)"

text \<open>\<^verbatim>\<open>await\<close>: time passes until the promise settles.\<close>

definition await :: "'w env \<Rightarrow> promise \<Rightarrow> ('w, unit) action" where
  "await E pr p =
     (case rejection pr of
        Some e \<Rightarrow> (Inl e, p\<lparr>world := (tick E ^^ settles pr) (world p)\<rparr>)
      | None \<Rightarrow> (Inr (), p\<lparr>world := (tick E ^^ settles pr) (world p)\<rparr>))"

definition await_selector :: "'w env \<Rightarrow> string \<Rightarrow> wait_for \<Rightarrow> nat \<Rightarrow> ('w, unit) action" where
  "await_selector E sel opt ms p = (case waitForSelector E sel opt ms p of (pr, p') \<Rightarrow> await E pr p')"

text \<open>\<^verbatim>\<open>await Promise.race([page.waitForSelector(...), page.waitForSelector(...)])\<close>.\<close>

definition await_race :: "'w env \<Rightarrow> string \<Rightarrow> wait_for \<Rightarrow> nat \<Rightarrow> string \<Rightarrow> wait_for \<Rightarrow> nat \<Rightarrow> ('w, unit) action" where
  "await_race E sel1 opt1 ms1 sel2 opt2 ms2 p =
     (case waitForSelector E sel1 opt1 ms1 p of (a, p1) \<Rightarrow>
      case waitForSelector E sel2 opt2 ms2 p1 of (b, p2) \<Rightarrow>
        await E (race a b) p2)"

text \<open>\<^verbatim>\<open>await page.$(sel)\<close>, read for its truthiness: an element handle, or null.\<close>

definition query_selector :: "'w env \<Rightarrow> string \<Rightarrow> ('w, bool) action" where
  "query_selector E sel p = (Inr (probe E (world p) sel \<noteq> Absent), logged (Query sel) p)"

text \<open>\<^verbatim>\<open>await page.$$eval(sel, f)\<close>: \<open>f\<close> applied to the elements matching \<open>sel\<close>.\<close>

definition eval_all :: "'w env \<Rightarrow> string \<Rightarrow> ((string \<times> string) list \<Rightarrow> 'a) \<Rightarrow> ('w, 'a) action" where
  "eval_all E sel f p = (Inr (f (matches E (world p) sel)), logged (EvalAll sel) p)"

section \<open>The helper functions of server.js\<close>

text \<open>
  \<^verbatim>\<open>waitForDropdownUpdate\<close> (lines 54 to 76): select the value on the trigger, race
  the two short waits, wait for the indicator to be hidden when \<^verbatim>\<open>page.$\<close> finds
  it, wait for the target to be enabled; any exception is logged and replaced.
\<close>

definition waitForDropdownUpdate :: "'w env \<Rightarrow> string \<Rightarrow> jsval \<Rightarrow> string \<Rightarrow> ('w, unit) action" where
  "waitForDropdownUpdate E triggerSelector triggerValue targetSelector =
     try_catch
       (and_then (command E (Select triggerSelector triggerValue)) (\<lambda>_.
        and_then (await_race E ''#MainContent_UpdateProgress1'' VisibleTrue 5000
                    (targetSelector @ '':not([disabled])'') Present 5000) (\<lambda>_.
        and_then (query_selector E ''#MainContent_UpdateProgress1'') (\<lambda>found.
        and_then (if found
                  then await_selector E ''#MainContent_UpdateProgress1'' HiddenTrue 15000
                  else succeed ()) (\<lambda>_.
        await_selector E (targetSelector @ '':not([disabled])'') Present 15000)))))
       (\<lambda>err.
        and_then (console_error (''Dropdown update failed from '' @ triggerSelector @ '' to ''
                    @ targetSelector @ '':'') err) (\<lambda>_.
        throw (Error (''Failed to load '' @ targetSelector @ '' after selecting ''
                    @ to_string triggerValue))))"

text \<open>
  \<^verbatim>\<open>String.prototype.trim\<close> on the code units below 256: tab, line feed, vertical
  tab, form feed, carriage return, space and the no-break space are white space.
\<close>

definition is_ws :: "char \<Rightarrow> bool" where
  "is_ws c = (c \<in> set [CHR 0x09, CHR 0x0A, CHR 0x0B, CHR 0x0C, CHR 0x0D, CHR 0x20, CHR 0xA0])"

definition trim :: "string \<Rightarrow> string" where
  "trim s = rev (dropWhile is_ws (rev (dropWhile is_ws s)))"

text \<open>An Option record \<^verbatim>\<open>{ id, name }\<close>.\<close>

record opt =
  id_opt :: string
  name_opt :: string

text \<open>
  \<^verbatim>\<open>getSelectOptions\<close> (lines 78 to 87). An element is the pair of its
  \<^verbatim>\<open>value\<close> and its \<^verbatim>\<open>textContent\<close>; \<^verbatim>\<open>slice(1)\<close> is \<open>drop 1\<close>.
\<close>

definition getSelectOptions :: "'w env \<Rightarrow> string \<Rightarrow> ('w, opt list) action" where
  "getSelectOptions E selector =
     and_then (await_selector E (selector @ '':not([disabled])'') Present 15000) (\<lambda>_.
     eval_all E (selector @ '' option'')
       (\<lambda>options. map (\<lambda>el. \<lparr>id_opt = fst el, name_opt = trim (snd el)\<rparr>) (drop 1 options)))"

section \<open>The handler of /scrape-options\<close>

text \<open>
  Lines 113 to 153: \<^verbatim>\<open>const result = {}\<close> and the chain of six branches, each of
  which ends by setting one property of \<open>result\<close>. The object is the list of its
  properties.
\<close>

type_synonym result = "(string \<times> opt list) list"

definition dispatch :: "'w env \<Rightarrow> query \<Rightarrow> ('w, result) action" where
  "dispatch E q =
     (if \<not> truthy (makeId q) \<and> \<not> truthy (modelId q) \<and> \<not> truthy (yearId q)
          \<and> \<not> truthy (countryId q) \<and> \<not> truthy (fuelId q) then
        and_then (getSelectOptions E ''#MainContent_ddlMake'') (\<lambda>makes.
        succeed [(''makes'', makes)])
      else if truthy (makeId q) \<and> \<not> truthy (modelId q) then
        and_then (waitForDropdownUpdate E ''#MainContent_ddlMake'' (makeId q) ''#MainContent_ddlModel'') (\<lambda>_.
        and_then (getSelectOptions E ''#MainContent_ddlModel'') (\<lambda>models.
        succeed [(''models'', models)]))
      else if truthy (makeId q) \<and> truthy (modelId q) \<and> \<not> truthy (yearId q) then
        and_then (waitForDropdownUpdate E ''#MainContent_ddlMake'' (makeId q) ''#MainContent_ddlModel'') (\<lambda>_.
        and_then (waitForDropdownUpdate E ''#MainContent_ddlModel'' (modelId q) ''#MainContent_ddlYear'') (\<lambda>_.
        and_then (getSelectOptions E ''#MainContent_ddlYear'') (\<lambda>years.
        succeed [(''years'', years)])))
      else if truthy (makeId q) \<and> truthy (modelId q) \<and> truthy (yearId q)
          \<and> \<not> truthy (countryId q) then
        and_then (waitForDropdownUpdate E ''#MainContent_ddlMake'' (makeId q) ''#MainContent_ddlModel'') (\<lambda>_.
        and_then (waitForDropdownUpdate E ''#MainContent_ddlModel'' (modelId q) ''#MainContent_ddlYear'') (\<lambda>_.
        and_then (waitForDropdownUpdate E ''#MainContent_ddlYear'' (yearId q) ''#MainContent_ddlCountry'') (\<lambda>_.
        and_then (getSelectOptions E ''#MainContent_ddlCountry'') (\<lambda>countries.
        succeed [(''countries'', countries)]))))
      else if truthy (makeId q) \<and> truthy (modelId q) \<and> truthy (yearId q)
          \<and> truthy (countryId q) \<and> \<not> truthy (fuelId q) then
        and_then (waitForDropdownUpdate E ''#MainContent_ddlMake'' (makeId q) ''#MainContent_ddlModel'') (\<lambda>_.
        and_then (waitForDropdownUpdate E ''#MainContent_ddlModel'' (modelId q) ''#MainContent_ddlYear'') (\<lambda>_.
        and_then (waitForDropdownUpdate E ''#MainContent_ddlYear'' (yearId q) ''#MainContent_ddlCountry'') (\<lambda>_.
        and_then (waitForDropdownUpdate E ''#MainContent_ddlCountry'' (countryId q) ''#MainContent_ddlFuel'') (\<lambda>_.
        and_then (getSelectOptions E ''#MainContent_ddlFuel'') (\<lambda>fuels.
        succeed [(''fuels'', fuels)])))))
      else
        and_then (waitForDropdownUpdate E ''#MainContent_ddlMake'' (makeId q) ''#MainContent_ddlModel'') (\<lambda>_.
        and_then (waitForDropdownUpdate E ''#MainContent_ddlModel'' (modelId q) ''#MainContent_ddlYear'') (\<lambda>_.
        and_then (waitForDropdownUpdate E ''#MainContent_ddlYear'' (yearId q) ''#MainContent_ddlCountry'') (\<lambda>_.
        and_then (waitForDropdownUpdate E ''#MainContent_ddlCountry'' (countryId q) ''#MainContent_ddlFuel'') (\<lambda>_.
        and_then (waitForDropdownUpdate E ''#MainContent_ddlFuel'' (fuelId q) ''#MainContent_ddlEngine'') (\<lambda>_.
        and_then (getSelectOptions E ''#MainContent_ddlEngine'') (\<lambda>engines.
        succeed [(''engines'', engines)])))))))"

text \<open>
  Lines 102 to 111, after the browser is launched: the page is created, configured and
  sent to the form.
\<close>

definition open_form :: "'w env \<Rightarrow> ('w, unit) action" where
  "open_form E =
     and_then (command E NewPage) (\<lambda>_.
     and_then (command E (SetUserAgent ''Mozilla/5.0 (Windows NT 10.0; Win64; x64) AppleWebKit/537.36 (KHTML, like Gecko) Chrome/117.0.0.0 Safari/537.36'')) (\<lambda>_.
     and_then (command E (SetDefaultNavigationTimeout 120000)) (\<lambda>_.
     command E (Goto ''https://umvvs.tra.go.tz/'' 60000))))"

text \<open>
  The response: \<^verbatim>\<open>res.json(result)\<close> with status 200, or status 500 with an
  error object (its \<^verbatim>\<open>timestamp\<close> is left out).
\<close>

datatype json_body =
    Result result
  | Failure (error_of: string) (details_of: string) (suggestion_of: string)

record response =
  status :: nat
  body :: json_body

definition failure_response :: "bool \<Rightarrow> js_error \<Rightarrow> response" where
  "failure_response isProduction e =
     \<lparr>status = 500,
      body = Failure ''Scraping failed'' (message e)
               (if isProduction then ''Try again later or contact support''
                else ''Try running with headless: false for debugging'')\<rparr>"

text \<open>
  The handler, lines 98 to 170. \<^verbatim>\<open>browser\<close> is set once
  \<^verbatim>\<open>puppeteer.launch\<close> has returned, so the \<^verbatim>\<open>catch\<close> block closes the browser
  for every exception but one of the launch itself. \<^verbatim>\<open>browser.close()\<close> is
  taken to succeed.
\<close>

definition scrape_options :: "'w env \<Rightarrow> bool \<Rightarrow> query \<Rightarrow> 'w page \<Rightarrow> response \<times> 'w page" where
  "scrape_options E isProduction q p =
     (case command E Launch p of
        (Inl e, p1) \<Rightarrow>
          (failure_response isProduction e, logged (ConsoleError ''Scraping error:'' e) p1)
      | (Inr _, p1) \<Rightarrow>
          (case and_then (open_form E) (\<lambda>_. dispatch E q) p1 of
             (Inr r, p2) \<Rightarrow> (\<lparr>status = 200, body = Result r\<rparr>, logged Close p2)
           | (Inl e, p2) \<Rightarrow>
               (failure_response isProduction e,
                logged Close (logged (ConsoleError ''Scraping error:'' e) p2))))"

section \<open>The resolver as the specification words it\<close>

text \<open>
  The chain of six stages with the selector of each field and the key under which its
  options are returned, and the five advances of the chain with the identifier a
  request supplies for each.
\<close>

definition stages :: "(string \<times> string) list" where
  "stages =
     [(''#MainContent_ddlMake'', ''makes''), (''#MainContent_ddlModel'', ''models''),
      (''#MainContent_ddlYear'', ''years''), (''#MainContent_ddlCountry'', ''countries''),
      (''#MainContent_ddlFuel'', ''fuels''), (''#MainContent_ddlEngine'', ''engines'')]"

definition identifiers :: "query \<Rightarrow> jsval list" where
  "identifiers q = [makeId q, modelId q, yearId q, countryId q, fuelId q]"

definition chain :: "query \<Rightarrow> (string \<times> jsval \<times> string) list" where
  "chain q = zip (map fst stages) (zip (identifiers q) (map fst (tl stages)))"

text \<open>
  The depth of a request: the count of contiguous, in-order, non-empty identifiers
  starting from Make. A request is contiguous when it supplies no identifier beyond
  them.
\<close>

definition depth :: "query \<Rightarrow> nat" where
  "depth q = length (takeWhile truthy (identifiers q))"

definition contiguous :: "query \<Rightarrow> bool" where
  "contiguous q = (filter truthy (identifiers q) = takeWhile truthy (identifiers q))"

text \<open>Advance through the given steps in order; the first failure ends the walk.\<close>

fun advance_all :: "'w env \<Rightarrow> (string \<times> jsval \<times> string) list \<Rightarrow> ('w, unit) action" where
  "advance_all E [] = succeed ()"
| "advance_all E ((trigger, v, target) # steps) =
     and_then (waitForDropdownUpdate E trigger v target) (\<lambda>_. advance_all E steps)"

text \<open>Read the OptionSet of stage \<open>k\<close>, counted from 1.\<close>

definition read_stage :: "'w env \<Rightarrow> nat \<Rightarrow> ('w, result) action" where
  "read_stage E k =
     and_then (getSelectOptions E (fst (stages ! (k - 1)))) (\<lambda>os.
     succeed [(snd (stages ! (k - 1)), os)])"

text \<open>
  \<open>resolve\<close> of the specification: advance stage 1 to stage \<open>depth\<close> with the supplied
  identifiers, then read stage \<open>depth + 1\<close>.
\<close>

definition resolve_spec :: "'w env \<Rightarrow> query \<Rightarrow> ('w, result) action" where
  "resolve_spec E q =
     and_then (advance_all E (take (depth q) (chain q))) (\<lambda>_. read_stage E (Suc (depth q)))"

section \<open>Observations on a run\<close>

text \<open>The arguments of the \<^verbatim>\<open>page.select\<close> calls among a list of calls.\<close>

fun select_args :: "call \<Rightarrow> (string \<times> jsval) list" where
  "select_args (Select sel v) = [(sel, v)]"
| "select_args _ = []"

definition selects :: "call list \<Rightarrow> (string \<times> jsval) list" where
  "selects cs = concat (map select_args cs)"

text \<open>An action that issues no \<^verbatim>\<open>page.select\<close>, whatever the state it starts in.\<close>

definition quiet :: "('w, 'a) action \<Rightarrow> bool" where
  "quiet m = (\<forall>p. \<exists>cs. calls (snd (m p)) = calls p @ cs \<and> selects cs = [])"

text \<open>An action that only adds to the calls issued.\<close>

definition grows :: "('w, 'a) action \<Rightarrow> bool" where
  "grows m = (\<forall>p. \<exists>cs. calls (snd (m p)) = calls p @ cs)"

text \<open>The carried options of a response body: a failure carries none.\<close>

fun options_in :: "json_body \<Rightarrow> opt list" where
  "options_in (Result r) = concat (map snd r)"
| "options_in (Failure e d s) = []"

text \<open>A request with every empty identifier taken as absent.\<close>

definition absent_if_empty :: "jsval \<Rightarrow> jsval" where
  "absent_if_empty v = (if truthy v then v else Undefined)"

definition without_empties :: "query \<Rightarrow> query" where
  "without_empties q =
     \<lparr>makeId = absent_if_empty (makeId q), modelId = absent_if_empty (modelId q),
      yearId = absent_if_empty (yearId q), countryId = absent_if_empty (countryId q),
      fuelId = absent_if_empty (fuelId q)\<rparr>"

text \<open>Whether a text occurs in a message.\<close>

fun mentions :: "string \<Rightarrow> string \<Rightarrow> bool" where
  "mentions [] s = (s = [])"
| "mentions (c # cs) s = (if take (length s) (c # cs) = s then True else mentions cs s)"

section \<open>Example pages\<close>

text \<open>
  puppeteer refuses to select a value that is not a string; every other command of
  the examples succeeds and leaves the world as it is.
\<close>

fun strings_only :: "'w \<Rightarrow> call \<Rightarrow> js_error + 'w" where
  "strings_only w (Select sel Undefined) = Inl (Error ''Values must be strings'')"
| "strings_only w c = Inr w"

text \<open>
  A page that never changes: \<open>d\<close> is the state of each selector's element, and
  every field lists the same three entries.
\<close>

definition static_page :: "(string \<Rightarrow> presence) \<Rightarrow> nat env" where
  "static_page d =
     \<lparr>perform = strings_only, tick = (\<lambda>w. w), probe = (\<lambda>w. d),
      matches = (\<lambda>w sel. [([], ''-- Select --''), (''1'', '' Toyota ''), (''2'', ''Nissan'')]),
      timeout_error = (\<lambda>sel ms. Error (''Waiting for selector '' @ sel @ '' failed''))\<rparr>"

text \<open>The form at rest: the loading indicator is in the DOM but hidden, every field is enabled.\<close>

definition at_rest :: "string \<Rightarrow> presence" where
  "at_rest sel = (if sel = ''#MainContent_UpdateProgress1'' then Hidden else Visible)"

text \<open>
  A form whose Model field never becomes enabled: every other field is there and
  enabled, and the loading indicator is in the DOM but hidden.
\<close>

definition stuck :: "string \<Rightarrow> presence" where
  "stuck sel =
     (if sel = ''#MainContent_ddlModel:not([disabled])'' then Absent
      else if sel = ''#MainContent_UpdateProgress1'' then Hidden else Visible)"

text \<open>
  A page over a clock in milliseconds that every command restarts: the indicator
  stays hidden, and every field is enabled from 100 ms on.
\<close>

definition restart_clock :: "nat \<Rightarrow> call \<Rightarrow> js_error + nat" where
  "restart_clock w c = (case strings_only w c of Inl e \<Rightarrow> Inl e | Inr _ \<Rightarrow> Inr 0)"

definition slow_page :: "nat env" where
  "slow_page =
     \<lparr>perform = restart_clock, tick = Suc,
      probe = (\<lambda>w sel. if sel = ''#MainContent_UpdateProgress1'' then Hidden
                         else if 100 \<le> w then Visible else Absent),
      matches = (\<lambda>w sel. [([], ''-- Select --''), (''1'', '' Toyota ''), (''2'', ''Nissan'')]),
      timeout_error = (\<lambda>sel ms. Error (''Waiting for selector '' @ sel @ '' failed''))\<rparr>"

definition blank :: "'w \<Rightarrow> 'w page" where
  "blank w = \<lparr>world = w, calls = []\<rparr>"

definition request :: "jsval \<Rightarrow> jsval \<Rightarrow> jsval \<Rightarrow> jsval \<Rightarrow> jsval \<Rightarrow> query" where
  "request a b c d e = \<lparr>makeId = a, modelId = b, yearId = c, countryId = d, fuelId = e\<rparr>"

section \<open>Properties of the actions\<close>

lemma and_then_Inl: "m p = (Inl e, p') \<Longrightarrow> and_then m f p = (Inl e, p')"
  by (simp add: and_then_def)

lemma and_then_Inr: "m p = (Inr a, p') \<Longrightarrow> and_then m f p = f a p'"
  by (simp add: and_then_def)

lemma poll_now: "c w \<Longrightarrow> poll t c n w = Some 0"
  by (cases n) simp_all

lemma poll_static: "t w = w \<Longrightarrow> poll t c n w = (if c w then Some 0 else None)"
  by (induction n) simp_all

lemma poll_Some: "poll t c n w = Some k \<Longrightarrow> k \<le> n \<and> c ((t ^^ k) w) \<and> (\<forall>j<k. \<not> c ((t ^^ j) w))"
proof (induction n arbitrary: w k)
  case 0
  then show ?case by (simp split: if_splits)
next
  case (Suc n)
  show ?case
  proof (cases "c w")
    case True
    with Suc.prems show ?thesis by simp
  next
    case False
    with Suc.prems obtain k' where k': "poll t c n (t w) = Some k'" "k = Suc k'"
      by auto
    from Suc.IH[OF k'(1)] have ih: "k' \<le> n" "c ((t ^^ k') (t w))" "\<forall>j<k'. \<not> c ((t ^^ j) (t w))"
      by auto
    have "\<forall>j<k. \<not> c ((t ^^ j) w)"
    proof (intro allI impI)
      fix j assume "j < k"
      show "\<not> c ((t ^^ j) w)"
      proof (cases j)
        case 0
        with False show ?thesis by simp
      next
        case (Suc j')
        with \<open>j < k\<close> k'(2) have "j' < k'" by simp
        with ih(3) have "\<not> c ((t ^^ j') (t w))" by blast
        with Suc show ?thesis by (simp add: funpow_swap1)
      qed
    qed
    with ih k'(2) show ?thesis by (simp add: funpow_swap1)
  qed
qed

lemma poll_None: "poll t c n w = None \<Longrightarrow> k \<le> n \<Longrightarrow> \<not> c ((t ^^ k) w)"
proof (induction n arbitrary: w k)
  case 0
  then show ?case by (simp split: if_splits)
next
  case (Suc n)
  from Suc.prems(1) have nc: "\<not> c w" and rest: "poll t c n (t w) = None"
    by (auto split: if_splits)
  show ?case
  proof (cases k)
    case 0
    with nc show ?thesis by simp
  next
    case (Suc k')
    with Suc.prems(2) have "k' \<le> n" by simp
    from Suc.IH[OF rest this] Suc show ?thesis by (simp add: funpow_swap1)
  qed
qed

lemma poll_first:
  "k \<le> n \<Longrightarrow> c ((t ^^ k) w) \<Longrightarrow> \<exists>j\<le>k. poll t c n w = Some j"
proof (cases "poll t c n w")
  case None
  assume "k \<le> n" "c ((t ^^ k) w)"
  with poll_None[OF None] show ?thesis by blast
next
  case (Some j)
  assume "k \<le> n" "c ((t ^^ k) w)"
  from poll_Some[OF Some] have "\<forall>i<j. \<not> c ((t ^^ i) w)" by simp
  with \<open>c ((t ^^ k) w)\<close> have "j \<le> k" by (meson not_le)
  with Some show ?thesis by simp
qed



lemma selects_append [simp]: "selects (xs @ ys) = selects xs @ selects ys"
  by (simp add: selects_def)

lemma selects_Nil [simp]: "selects [] = []"
  by (simp add: selects_def)

lemma selects_Cons [simp]: "selects (c # cs) = select_args c @ selects cs"
  by (simp add: selects_def)

lemma command_result:
  "command E c p =
     (case perform E (world p) c of
        Inl e \<Rightarrow> (Inl e, \<lparr>world = world p, calls = calls p @ [c]\<rparr>)
      | Inr w \<Rightarrow> (Inr (), \<lparr>world = w, calls = calls p @ [c]\<rparr>))"
  by (simp add: command_def logged_def split: sum.splits)

lemma await_selector_result:
  "await_selector E sel opt ms p =
     (case poll (tick E) (\<lambda>w. satisfied opt (probe E w sel)) ms (world p) of
        Some k \<Rightarrow> (Inr (), \<lparr>world = (tick E ^^ k) (world p),
                              calls = calls p @ [WaitForSelector sel opt ms]\<rparr>)
      | None \<Rightarrow> (Inl (timeout_error E sel ms),
                  \<lparr>world = (tick E ^^ ms) (world p),
                   calls = calls p @ [WaitForSelector sel opt ms]\<rparr>))"
  by (simp add: await_selector_def waitForSelector_def settle_def await_def logged_def
      split: option.splits)

lemma await_selector_calls:
  "calls (snd (await_selector E sel opt ms p)) = calls p @ [WaitForSelector sel opt ms]"
  by (simp add: await_selector_result split: option.splits)

lemma await_selector_ok:
  assumes "fst (await_selector E sel opt ms p) = Inr u"
  shows "satisfied opt (probe E (world (snd (await_selector E sel opt ms p))) sel)"
proof (cases "poll (tick E) (\<lambda>w. satisfied opt (probe E w sel)) ms (world p)")
  case None
  with assms show ?thesis by (simp add: await_selector_result)
next
  case (Some k)
  from poll_Some[OF Some] Some show ?thesis by (simp add: await_selector_result)
qed

lemma await_race_calls:
  "calls (snd (await_race E s1 o1 m1 s2 o2 m2 p)) =
     calls p @ [WaitForSelector s1 o1 m1, WaitForSelector s2 o2 m2]"
  by (simp add: await_race_def waitForSelector_def await_def logged_def split: option.splits)

lemma await_race_result:
  "await_race E s1 o1 m1 s2 o2 m2 p =
     (case rejection (race (settle E (world p) s1 o1 m1) (settle E (world p) s2 o2 m2)) of
        Some e \<Rightarrow> Inl e | None \<Rightarrow> Inr (),
      \<lparr>world = (tick E ^^ settles (race (settle E (world p) s1 o1 m1) (settle E (world p) s2 o2 m2))) (world p),
       calls = calls p @ [WaitForSelector s1 o1 m1, WaitForSelector s2 o2 m2]\<rparr>)"
  by (simp add: await_race_def waitForSelector_def await_def logged_def split: option.splits)

lemma quiet_succeed: "quiet (succeed a)"
  by (simp add: quiet_def succeed_def)

lemma quiet_throw: "quiet (throw e)"
  by (simp add: quiet_def throw_def)

lemma quiet_console_error: "quiet (console_error s e)"
  by (simp add: quiet_def console_error_def logged_def)

lemma quiet_await_selector: "quiet (await_selector E sel opt ms)"
  by (simp add: quiet_def await_selector_calls)

lemma quiet_await_race: "quiet (await_race E s1 o1 m1 s2 o2 m2)"
  by (simp add: quiet_def await_race_calls)

lemma quiet_query_selector: "quiet (query_selector E sel)"
  by (simp add: quiet_def query_selector_def logged_def)

lemma quiet_eval_all: "quiet (eval_all E sel f)"
  by (simp add: quiet_def eval_all_def logged_def)

lemma quiet_and_then:
  assumes m: "quiet m" and f: "\<And>a. quiet (f a)"
  shows "quiet (and_then m f)"
  unfolding quiet_def
proof
  fix p
  from m obtain cs where cs: "calls (snd (m p)) = calls p @ cs" "selects cs = []"
    unfolding quiet_def by blast
  show "\<exists>cs. calls (snd (and_then m f p)) = calls p @ cs \<and> selects cs = []"
  proof (cases "m p")
    case (Pair r p1)
    show ?thesis
    proof (cases r)
      case (Inl e)
      with Pair cs show ?thesis by (simp add: and_then_def)
    next
      case (Inr a)
      from f[of a] obtain ds where ds: "calls (snd (f a p1)) = calls p1 @ ds" "selects ds = []"
        unfolding quiet_def by blast
      from Pair cs have "calls p1 = calls p @ cs" by simp
      with ds have "calls (snd (f a p1)) = calls p @ (cs @ ds) \<and> selects (cs @ ds) = []"
        using cs(2) by simp
      with Pair Inr show ?thesis unfolding and_then_def by (simp del: append_assoc)
    qed
  qed
qed

lemma quiet_try_catch:
  assumes m: "quiet m" and h: "\<And>e. quiet (h e)"
  shows "quiet (try_catch m h)"
  unfolding quiet_def
proof
  fix p
  from m obtain cs where cs: "calls (snd (m p)) = calls p @ cs" "selects cs = []"
    unfolding quiet_def by blast
  show "\<exists>cs. calls (snd (try_catch m h p)) = calls p @ cs \<and> selects cs = []"
  proof (cases "m p")
    case (Pair r p1)
    show ?thesis
    proof (cases r)
      case (Inr a)
      with Pair cs show ?thesis by (simp add: try_catch_def)
    next
      case (Inl e)
      from h[of e] obtain ds where ds: "calls (snd (h e p1)) = calls p1 @ ds" "selects ds = []"
        unfolding quiet_def by blast
      from Pair cs have "calls p1 = calls p @ cs" by simp
      with ds have "calls (snd (h e p1)) = calls p @ (cs @ ds) \<and> selects (cs @ ds) = []"
        using cs(2) by simp
      with Pair Inl show ?thesis unfolding try_catch_def by (simp del: append_assoc)
    qed
  qed
qed

lemma quiet_getSelectOptions: "quiet (getSelectOptions E s)"
  unfolding getSelectOptions_def
  by (intro quiet_and_then quiet_await_selector quiet_eval_all)


lemma query_selector_result:
  "query_selector E sel p =
     (Inr (probe E (world p) sel \<noteq> Absent), \<lparr>world = world p, calls = calls p @ [Query sel]\<rparr>)"
  by (simp add: query_selector_def logged_def)

text \<open>The last step of the driver, from the world \<open>w\<close> with the calls \<open>cs\<close> issued.\<close>

lemma confirm_flat:
  "try_catch (await_selector E sel Present ms)
     (\<lambda>err. and_then (console_error s err) (\<lambda>_. throw x)) \<lparr>world = w, calls = cs\<rparr> =
   (case poll (tick E) (\<lambda>w'. probe E w' sel \<noteq> Absent) ms w of
      Some l \<Rightarrow> (Inr (), \<lparr>world = (tick E ^^ l) w, calls = cs @ [WaitForSelector sel Present ms]\<rparr>)
    | None \<Rightarrow> (Inl x, \<lparr>world = (tick E ^^ ms) w,
                 calls = cs @ [WaitForSelector sel Present ms,
                               ConsoleError s (timeout_error E sel ms)]\<rparr>))"
  by (simp add: try_catch_def await_selector_result and_then_def console_error_def throw_def
      logged_def split: option.splits)

lemma try_catch_and_then:
  "try_catch (and_then m f) h p =
     (case m p of (Inl e, p1) \<Rightarrow> h e p1 | (Inr a, p1) \<Rightarrow> try_catch (f a) h p1)"
  by (simp add: try_catch_def and_then_def split: prod.splits sum.splits)

lemma wfdu_flat:
  fixes E :: "'w env"
  defines "ind \<equiv> ''#MainContent_UpdateProgress1''"
  shows "waitForDropdownUpdate E a v b p =
    (let x = Error (''Failed to load '' @ b @ '' after selecting '' @ to_string v);
         s = ''Dropdown update failed from '' @ a @ '' to '' @ b @ '':'';
         tgt = b @ '':not([disabled])''
     in case perform E (world p) (Select a v) of
       Inl e \<Rightarrow> (Inl x, \<lparr>world = world p, calls = calls p @ [Select a v, ConsoleError s e]\<rparr>)
     | Inr w1 \<Rightarrow>
        (let r = race (settle E w1 ind VisibleTrue 5000) (settle E w1 tgt Present 5000);
             w2 = (tick E ^^ settles r) w1;
             c2 = calls p @ [Select a v, WaitForSelector ind VisibleTrue 5000,
                             WaitForSelector tgt Present 5000]
         in case rejection r of
           Some e \<Rightarrow> (Inl x, \<lparr>world = w2, calls = c2 @ [ConsoleError s e]\<rparr>)
         | None \<Rightarrow>
            (if probe E w2 ind \<noteq> Absent then
               (case poll (tick E) (\<lambda>w'. probe E w' ind \<noteq> Visible) 15000 w2 of
                  None \<Rightarrow> (Inl x, \<lparr>world = (tick E ^^ 15000) w2,
                             calls = c2 @ [Query ind, WaitForSelector ind HiddenTrue 15000,
                                           ConsoleError s (timeout_error E ind 15000)]\<rparr>)
                | Some k \<Rightarrow>
                   (case poll (tick E) (\<lambda>w'. probe E w' tgt \<noteq> Absent) 15000 ((tick E ^^ k) w2) of
                      Some l \<Rightarrow> (Inr (), \<lparr>world = (tick E ^^ l) ((tick E ^^ k) w2),
                                   calls = c2 @ [Query ind, WaitForSelector ind HiddenTrue 15000,
                                                 WaitForSelector tgt Present 15000]\<rparr>)
                    | None \<Rightarrow> (Inl x, \<lparr>world = (tick E ^^ 15000) ((tick E ^^ k) w2),
                                 calls = c2 @ [Query ind, WaitForSelector ind HiddenTrue 15000,
                                               WaitForSelector tgt Present 15000,
                                               ConsoleError s (timeout_error E tgt 15000)]\<rparr>)))
             else
               (case poll (tick E) (\<lambda>w'. probe E w' tgt \<noteq> Absent) 15000 w2 of
                  Some l \<Rightarrow> (Inr (), \<lparr>world = (tick E ^^ l) w2,
                               calls = c2 @ [Query ind, WaitForSelector tgt Present 15000]\<rparr>)
                | None \<Rightarrow> (Inl x, \<lparr>world = (tick E ^^ 15000) w2,
                             calls = c2 @ [Query ind, WaitForSelector tgt Present 15000,
                                           ConsoleError s (timeout_error E tgt 15000)]\<rparr>)))))"
proof -
  define x where "x = Error (''Failed to load '' @ b @ '' after selecting '' @ to_string v)"
  define s where "s = ''Dropdown update failed from '' @ a @ '' to '' @ b @ '':''"
  define tgt where "tgt = b @ '':not([disabled])''"
  define h :: "js_error \<Rightarrow> ('w, unit) action"
    where "h = (\<lambda>err. and_then (console_error s err) (\<lambda>_. throw x))"
  define fin :: "('w, unit) action" where "fin = await_selector E tgt Present 15000"
  define st :: "bool \<Rightarrow> ('w, unit) action"
    where "st = (\<lambda>found. and_then (if found then await_selector E ind HiddenTrue 15000 else succeed ()) (\<lambda>_. fin))"
  define rest :: "('w, unit) action"
    where "rest = and_then (await_race E ind VisibleTrue 5000 tgt Present 5000) (\<lambda>_.
                  and_then (query_selector E ind) st)"
  have w: "waitForDropdownUpdate E a v b = try_catch (and_then (command E (Select a v)) (\<lambda>_. rest)) h"
    unfolding waitForDropdownUpdate_def rest_def st_def fin_def h_def x_def s_def tgt_def ind_def
    by (rule refl)
  have hh: "h e q = (Inl x, q\<lparr>calls := calls q @ [ConsoleError s e]\<rparr>)" for e q
    by (simp add: h_def and_then_def console_error_def throw_def logged_def)
  have finq: "try_catch fin h \<lparr>world = w', calls = cs\<rparr> =
      (case poll (tick E) (\<lambda>w'. probe E w' tgt \<noteq> Absent) 15000 w' of
        Some l \<Rightarrow> (Inr (), \<lparr>world = (tick E ^^ l) w', calls = cs @ [WaitForSelector tgt Present 15000]\<rparr>)
      | None \<Rightarrow> (Inl x, \<lparr>world = (tick E ^^ 15000) w',
                 calls = cs @ [WaitForSelector tgt Present 15000,
                               ConsoleError s (timeout_error E tgt 15000)]\<rparr>))" for w' cs
    unfolding fin_def h_def by (rule confirm_flat)
  have stq: "try_catch (st found) h \<lparr>world = w', calls = cs\<rparr> =
      (if found then
         (case poll (tick E) (\<lambda>w'. probe E w' ind \<noteq> Visible) 15000 w' of
            None \<Rightarrow> (Inl x, \<lparr>world = (tick E ^^ 15000) w',
                       calls = cs @ [WaitForSelector ind HiddenTrue 15000,
                                     ConsoleError s (timeout_error E ind 15000)]\<rparr>)
          | Some k \<Rightarrow> try_catch fin h \<lparr>world = (tick E ^^ k) w',
                                       calls = cs @ [WaitForSelector ind HiddenTrue 15000]\<rparr>)
       else try_catch fin h \<lparr>world = w', calls = cs\<rparr>)" for found w' cs
    unfolding st_def try_catch_and_then
    by (simp add: await_selector_result succeed_def hh split: option.splits)
  have restq: "try_catch rest h \<lparr>world = w1, calls = cs\<rparr> =
      (let r = race (settle E w1 ind VisibleTrue 5000) (settle E w1 tgt Present 5000);
           w2 = (tick E ^^ settles r) w1;
           c2 = cs @ [WaitForSelector ind VisibleTrue 5000, WaitForSelector tgt Present 5000]
       in case rejection r of
            Some e \<Rightarrow> (Inl x, \<lparr>world = w2, calls = c2 @ [ConsoleError s e]\<rparr>)
          | None \<Rightarrow> try_catch (st (probe E w2 ind \<noteq> Absent)) h
                      \<lparr>world = w2, calls = c2 @ [Query ind]\<rparr>)" for w1 cs
    unfolding rest_def try_catch_and_then
    by (simp add: await_race_result query_selector_result hh Let_def split: option.splits)
  show ?thesis
    unfolding w try_catch_and_then
    by (simp add: command_result hh restq stq finq Let_def x_def s_def tgt_def
        split: sum.splits option.splits)
qed


lemma wfdu_selects:
  "selects (calls (snd (waitForDropdownUpdate E a v b p))) = selects (calls p) @ [(a, v)]"
  by (simp add: wfdu_flat Let_def split: sum.splits option.splits)

lemma wfdu_calls:
  "\<exists>cs. calls (snd (waitForDropdownUpdate E a v b p)) = calls p @ Select a v # cs \<and> selects cs = []"
  by (simp add: wfdu_flat Let_def split: sum.splits option.splits)

lemma wfdu_ok_confirmed:
  assumes "fst (waitForDropdownUpdate E a v b p) = Inr u"
  shows "last (calls (snd (waitForDropdownUpdate E a v b p))) =
           WaitForSelector (b @ '':not([disabled])'') Present 15000
         \<and> probe E (world (snd (waitForDropdownUpdate E a v b p))) (b @ '':not([disabled])'') \<noteq> Absent"
  using assms
  by (auto simp add: wfdu_flat Let_def split: sum.splits option.splits if_splits dest: poll_Some)

lemma trim_split:
  "s = takeWhile is_ws s @ trim s @ rev (takeWhile is_ws (rev (dropWhile is_ws s)))"
proof -
  let ?t = "dropWhile is_ws s"
  have "rev (dropWhile is_ws (rev ?t)) @ rev (takeWhile is_ws (rev ?t)) =
        rev (takeWhile is_ws (rev ?t) @ dropWhile is_ws (rev ?t))"
    by (simp only: rev_append)
  also have "\<dots> = ?t"
    by (simp only: takeWhile_dropWhile_id rev_rev_ident)
  finally have "?t = trim s @ rev (takeWhile is_ws (rev ?t))"
    by (simp add: trim_def)
  moreover have "s = takeWhile is_ws s @ ?t"
    by simp
  ultimately show ?thesis by metis
qed

lemma trim_around:
  "\<exists>a b. s = a @ trim s @ b \<and> list_all is_ws a \<and> list_all is_ws b"
proof -
  have "list_all is_ws (takeWhile is_ws s)"
    by (simp add: list_all_iff) (meson set_takeWhileD)
  moreover have "list_all is_ws (rev (takeWhile is_ws (rev (dropWhile is_ws s))))"
    by (simp add: list_all_iff) (meson set_takeWhileD)
  ultimately show ?thesis using trim_split[of s] by blast
qed

lemma trim_last: "trim s \<noteq> [] \<Longrightarrow> \<not> is_ws (last (trim s))"
  unfolding trim_def by (simp add: last_rev hd_dropWhile)

lemma trim_hd: "trim s \<noteq> [] \<Longrightarrow> \<not> is_ws (hd (trim s))"
proof -
  assume ne: "trim s \<noteq> []"
  let ?t = "dropWhile is_ws s"
  from trim_split[of s] have "?t = trim s @ rev (takeWhile is_ws (rev ?t))"
    by (metis append_same_eq append_eq_append_conv takeWhile_dropWhile_id same_append_eq)
  with ne have "?t \<noteq> []" "hd ?t = hd (trim s)"
    by (metis append_is_Nil_conv, metis hd_append2)
  then show ?thesis by (metis hd_dropWhile)
qed

lemma getSelectOptions_result:
  "getSelectOptions E sel p =
     (case poll (tick E) (\<lambda>w. probe E w (sel @ '':not([disabled])'') \<noteq> Absent) 15000 (world p) of
        Some k \<Rightarrow>
          (Inr (map (\<lambda>el. \<lparr>id_opt = fst el, name_opt = trim (snd el)\<rparr>)
                 (drop 1 (matches E ((tick E ^^ k) (world p)) (sel @ '' option'')))),
           \<lparr>world = (tick E ^^ k) (world p),
            calls = calls p @ [WaitForSelector (sel @ '':not([disabled])'') Present 15000,
                               EvalAll (sel @ '' option'')]\<rparr>)
      | None \<Rightarrow>
          (Inl (timeout_error E (sel @ '':not([disabled])'') 15000),
           \<lparr>world = (tick E ^^ 15000) (world p),
            calls = calls p @ [WaitForSelector (sel @ '':not([disabled])'') Present 15000]\<rparr>))"
  by (simp add: getSelectOptions_def and_then_def await_selector_result eval_all_def logged_def
      split: option.splits)

lemma chain_simp:
  "chain q =
     [(''#MainContent_ddlMake'', makeId q, ''#MainContent_ddlModel''),
      (''#MainContent_ddlModel'', modelId q, ''#MainContent_ddlYear''),
      (''#MainContent_ddlYear'', yearId q, ''#MainContent_ddlCountry''),
      (''#MainContent_ddlCountry'', countryId q, ''#MainContent_ddlFuel''),
      (''#MainContent_ddlFuel'', fuelId q, ''#MainContent_ddlEngine'')]"
  by (simp add: chain_def stages_def identifiers_def)

lemma read_stage_simps:
  "read_stage E (Suc 0) = and_then (getSelectOptions E ''#MainContent_ddlMake'') (\<lambda>os. succeed [(''makes'', os)])"
  "read_stage E 2 = and_then (getSelectOptions E ''#MainContent_ddlModel'') (\<lambda>os. succeed [(''models'', os)])"
  "read_stage E 3 = and_then (getSelectOptions E ''#MainContent_ddlYear'') (\<lambda>os. succeed [(''years'', os)])"
  "read_stage E 4 = and_then (getSelectOptions E ''#MainContent_ddlCountry'') (\<lambda>os. succeed [(''countries'', os)])"
  "read_stage E 5 = and_then (getSelectOptions E ''#MainContent_ddlFuel'') (\<lambda>os. succeed [(''fuels'', os)])"
  "read_stage E 6 = and_then (getSelectOptions E ''#MainContent_ddlEngine'') (\<lambda>os. succeed [(''engines'', os)])"
  by (simp_all add: read_stage_def stages_def)

lemma read_stage_Suc:
  "read_stage E (Suc (Suc 0)) = and_then (getSelectOptions E ''#MainContent_ddlModel'') (\<lambda>os. succeed [(''models'', os)])"
  "read_stage E (Suc (Suc (Suc 0))) = and_then (getSelectOptions E ''#MainContent_ddlYear'') (\<lambda>os. succeed [(''years'', os)])"
  "read_stage E (Suc (Suc (Suc (Suc 0)))) = and_then (getSelectOptions E ''#MainContent_ddlCountry'') (\<lambda>os. succeed [(''countries'', os)])"
  "read_stage E (Suc (Suc (Suc (Suc (Suc 0))))) = and_then (getSelectOptions E ''#MainContent_ddlFuel'') (\<lambda>os. succeed [(''fuels'', os)])"
  "read_stage E (Suc (Suc (Suc (Suc (Suc (Suc 0)))))) = and_then (getSelectOptions E ''#MainContent_ddlEngine'') (\<lambda>os. succeed [(''engines'', os)])"
  by (simp_all add: read_stage_def stages_def)

lemma and_then_succeed_unit: "and_then (succeed ()) f = f ()"
  by (rule ext) (simp add: and_then_def succeed_def)

lemma and_then_assoc: "and_then (and_then m f) g = and_then m (\<lambda>a. and_then (f a) g)"
  by (rule ext) (simp add: and_then_def split: prod.splits sum.splits)

lemma dispatch_none:
  assumes "\<not> truthy (makeId q)" "\<not> truthy (modelId q)" "\<not> truthy (yearId q)"
    "\<not> truthy (countryId q)" "\<not> truthy (fuelId q)"
  shows "dispatch E q = read_stage E 1"
  using assms by (simp add: dispatch_def read_stage_simps)

lemma depth_none: "\<not> truthy (makeId q) \<Longrightarrow> depth q = 0"
  by (simp add: depth_def identifiers_def)

lemma dispatch_else:
  assumes "\<not> truthy (makeId q)"
    and "truthy (modelId q) \<or> truthy (yearId q) \<or> truthy (countryId q) \<or> truthy (fuelId q)"
  shows "dispatch E q = and_then (advance_all E (chain q)) (\<lambda>_. read_stage E 6)"
  using assms
  by (auto simp add: dispatch_def chain_simp read_stage_simps and_then_assoc and_then_succeed_unit)

lemma dispatch_prefix:
  assumes "truthy (makeId q)"
  shows "dispatch E q = resolve_spec E q"
proof (cases "truthy (modelId q)")
  case m: False
  with assms show ?thesis
    by (simp add: dispatch_def resolve_spec_def depth_def identifiers_def chain_simp
        read_stage_Suc and_then_assoc and_then_succeed_unit)
next
  case m: True
  show ?thesis
  proof (cases "truthy (yearId q)")
    case y: False
    with assms m show ?thesis
      by (simp add: dispatch_def resolve_spec_def depth_def identifiers_def chain_simp
          read_stage_Suc and_then_assoc and_then_succeed_unit)
  next
    case y: True
    show ?thesis
    proof (cases "truthy (countryId q)")
      case c: False
      with assms m y show ?thesis
        by (simp add: dispatch_def resolve_spec_def depth_def identifiers_def chain_simp
            read_stage_Suc and_then_assoc and_then_succeed_unit)
    next
      case c: True
      show ?thesis
      proof (cases "truthy (fuelId q)")
        case False
        with assms m y c show ?thesis
          by (simp add: dispatch_def resolve_spec_def depth_def identifiers_def chain_simp
              read_stage_Suc and_then_assoc and_then_succeed_unit)
      next
        case True
        with assms m y c show ?thesis
          by (simp add: dispatch_def resolve_spec_def depth_def identifiers_def chain_simp
              read_stage_Suc and_then_assoc and_then_succeed_unit)
      qed
    qed
  qed
qed

lemma wfdu_message:
  "fst (waitForDropdownUpdate E a v b p) = Inl e \<Longrightarrow>
   e = Error (''Failed to load '' @ b @ '' after selecting '' @ to_string v)"
  by (auto simp add: wfdu_flat Let_def split: sum.splits option.splits if_splits)

lemma advance_all_trace:
  "fst (advance_all E steps p) = Inr u \<Longrightarrow>
   \<exists>cs. calls (snd (advance_all E steps p)) = calls p @ cs
        \<and> selects cs = map (\<lambda>(a, v, b). (a, v)) steps"
proof (induction steps arbitrary: p)
  case Nil
  then show ?case by (simp add: succeed_def)
next
  case (Cons st steps)
  obtain a v b where st: "st = (a, v, b)" by (cases st) auto
  obtain r p1 where w: "waitForDropdownUpdate E a v b p = (r, p1)" by fastforce
  from wfdu_calls[of E a v b p] w obtain cs where
    cs: "calls p1 = calls p @ Select a v # cs" "selects cs = []" by auto
  show ?case
  proof (cases r)
    case (Inl e)
    with Cons.prems st w show ?thesis by (simp add: and_then_def)
  next
    case (Inr x)
    with st w have eq: "advance_all E (st # steps) p = advance_all E steps p1"
      by (simp add: and_then_def)
    with Cons.prems have "fst (advance_all E steps p1) = Inr u" by simp
    from Cons.IH[OF this] obtain ds where
      ds: "calls (snd (advance_all E steps p1)) = calls p1 @ ds"
          "selects ds = map (\<lambda>(a, v, b). (a, v)) steps" by blast
    have "calls (snd (advance_all E (st # steps) p)) = calls p @ (Select a v # cs @ ds)"
      using eq ds(1) cs(1) by simp
    moreover have "selects (Select a v # cs @ ds) = map (\<lambda>(a, v, b). (a, v)) (st # steps)"
      using cs(2) ds(2) st by simp
    ultimately show ?thesis by blast
  qed
qed

lemma advance_all_message:
  "fst (advance_all E steps p) = Inl e \<Longrightarrow>
   \<exists>a v b. (a, v, b) \<in> set steps
      \<and> e = Error (''Failed to load '' @ b @ '' after selecting '' @ to_string v)"
proof (induction steps arbitrary: p)
  case Nil
  then show ?case by (simp add: succeed_def)
next
  case (Cons st steps)
  obtain a v b where st: "st = (a, v, b)" by (cases st) auto
  obtain r p1 where w: "waitForDropdownUpdate E a v b p = (r, p1)" by fastforce
  show ?case
  proof (cases r)
    case (Inl e')
    with Cons.prems st w have "e' = e" by (simp add: and_then_def)
    with Inl w wfdu_message[of E a v b p e] st show ?thesis by auto
  next
    case (Inr x)
    with st w have eq: "advance_all E (st # steps) p = advance_all E steps p1"
      by (simp add: and_then_def)
    with Cons.prems have "fst (advance_all E steps p1) = Inl e" by simp
    from Cons.IH[OF this] show ?thesis by auto
  qed
qed

lemma read_stage_result:
  "read_stage E k p =
     (case getSelectOptions E (fst (stages ! (k - 1))) p of
        (Inl e, p') \<Rightarrow> (Inl e, p')
      | (Inr os, p') \<Rightarrow> (Inr [(snd (stages ! (k - 1)), os)], p'))"
  by (simp add: read_stage_def and_then_def succeed_def split: prod.splits sum.splits)

lemma read_stage_trace:
  assumes "fst (read_stage E k p) = Inr r"
  shows "calls (snd (read_stage E k p)) =
           calls p @ [WaitForSelector (fst (stages ! (k - 1)) @ '':not([disabled])'') Present 15000,
                      EvalAll (fst (stages ! (k - 1)) @ '' option'')]
       \<and> r = [(snd (stages ! (k - 1)),
               map (\<lambda>el. \<lparr>id_opt = fst el, name_opt = trim (snd el)\<rparr>)
                 (drop 1 (matches E (world (snd (read_stage E k p)))
                            (fst (stages ! (k - 1)) @ '' option''))))]"
  using assms
  by (auto simp add: read_stage_result getSelectOptions_result split: option.splits)

lemma read_stage_message:
  "fst (read_stage E k p) = Inl e \<Longrightarrow>
   e = timeout_error E (fst (stages ! (k - 1)) @ '':not([disabled])'') 15000"
  by (auto simp add: read_stage_result getSelectOptions_result split: option.splits)

lemma quiet_read_stage: "quiet (read_stage E k)"
  unfolding read_stage_def
  by (intro quiet_and_then quiet_getSelectOptions quiet_succeed)

lemma walk_then_read_trace:
  assumes "fst (and_then (advance_all E steps) (\<lambda>_. read_stage E k) p) = Inr r"
  shows "\<exists>cs. calls (snd (and_then (advance_all E steps) (\<lambda>_. read_stage E k) p)) =
           calls p @ cs @ [WaitForSelector (fst (stages ! (k - 1)) @ '':not([disabled])'') Present 15000,
                           EvalAll (fst (stages ! (k - 1)) @ '' option'')]
         \<and> selects cs = map (\<lambda>(a, v, b). (a, v)) steps"
proof -
  obtain x p1 where a: "advance_all E steps p = (x, p1)" by fastforce
  show ?thesis
  proof (cases x)
    case (Inl e)
    with a assms show ?thesis by (simp add: and_then_def)
  next
    case (Inr u)
    with a have eq: "and_then (advance_all E steps) (\<lambda>_. read_stage E k) p = read_stage E k p1"
      by (simp add: and_then_def)
    from a Inr have "fst (advance_all E steps p) = Inr u" by simp
    from advance_all_trace[OF this] a obtain cs where
      cs: "calls p1 = calls p @ cs" "selects cs = map (\<lambda>(a, v, b). (a, v)) steps" by auto
    from assms eq have "fst (read_stage E k p1) = Inr r" by simp
    from read_stage_trace[OF this] eq cs show ?thesis by auto
  qed
qed


lemma depth_pos: "0 < depth q \<Longrightarrow> truthy (makeId q)"
  by (cases "truthy (makeId q)") (simp_all add: depth_def identifiers_def)

lemma chain_selects:
  "map (\<lambda>(a, v, b). (a, v)) (take d (chain q)) = take d (zip (map fst stages) (identifiers q))"
  by (simp add: chain_simp stages_def identifiers_def take_map[symmetric] del: take_map)

lemma quiet_grows: "quiet m \<Longrightarrow> grows m"
  unfolding quiet_def grows_def by blast

lemma grows_and_then:
  assumes m: "grows m" and f: "\<And>a. grows (f a)"
  shows "grows (and_then m f)"
  unfolding grows_def
proof
  fix p
  from m obtain cs where cs: "calls (snd (m p)) = calls p @ cs"
    unfolding grows_def by blast
  show "\<exists>cs. calls (snd (and_then m f p)) = calls p @ cs"
  proof (cases "m p")
    case (Pair r p1)
    show ?thesis
    proof (cases r)
      case (Inl e)
      with Pair cs show ?thesis by (simp add: and_then_def)
    next
      case (Inr a)
      from f[of a] obtain ds where ds: "calls (snd (f a p1)) = calls p1 @ ds"
        unfolding grows_def by blast
      from Pair cs have "calls p1 = calls p @ cs" by simp
      with ds have "calls (snd (f a p1)) = calls p @ (cs @ ds)" by simp
      with Pair Inr show ?thesis unfolding and_then_def by (simp del: append_assoc)
    qed
  qed
qed

lemma grows_wfdu: "grows (waitForDropdownUpdate E a v b)"
  unfolding grows_def using wfdu_calls[of E a v b] by blast

lemma grows_advance_all: "grows (advance_all E steps)"
proof (induction steps)
  case Nil
  show ?case by (simp add: quiet_grows quiet_succeed)
next
  case (Cons st steps)
  obtain a v b where "st = (a, v, b)" by (cases st) auto
  with Cons show ?case by (simp add: grows_and_then grows_wfdu)
qed

lemma command_calls: "calls (snd (command E c p)) = calls p @ [c]"
  by (simp add: command_result split: sum.splits)

lemma quiet_command: "select_args c = [] \<Longrightarrow> quiet (command E c)"
  by (simp add: quiet_def command_calls)

lemma quiet_open_form: "quiet (open_form E)"
  unfolding open_form_def
  by (intro quiet_and_then quiet_command) simp_all

lemma open_form_trace:
  assumes "fst (open_form E p) = Inr u"
  shows "calls (snd (open_form E p)) =
    calls p @ [NewPage,
      SetUserAgent ''Mozilla/5.0 (Windows NT 10.0; Win64; x64) AppleWebKit/537.36 (KHTML, like Gecko) Chrome/117.0.0.0 Safari/537.36'',
      SetDefaultNavigationTimeout 120000, Goto ''https://umvvs.tra.go.tz/'' 60000]"
  using assms unfolding open_form_def
  by (auto simp add: and_then_def command_result split: sum.splits)

text \<open>Every branch of the dispatch is a walk followed by a read.\<close>

lemma dispatch_walk:
  "\<exists>steps k. dispatch E q = and_then (advance_all E steps) (\<lambda>_. read_stage E k)"
proof (cases "truthy (makeId q)")
  case True
  then show ?thesis unfolding dispatch_prefix[OF True] resolve_spec_def by blast
next
  case False
  show ?thesis
  proof (cases "truthy (modelId q) \<or> truthy (yearId q) \<or> truthy (countryId q) \<or> truthy (fuelId q)")
    case True
    from dispatch_else[OF False True] show ?thesis by blast
  next
    case no: False
    with False have "dispatch E q = read_stage E 1" by (simp add: dispatch_none)
    then have "dispatch E q = and_then (advance_all E []) (\<lambda>_. read_stage E 1)"
      by (simp add: and_then_succeed_unit)
    then show ?thesis by blast
  qed
qed

lemma grows_dispatch: "grows (dispatch E q)"
proof -
  from dispatch_walk[of E q] obtain steps k where
    "dispatch E q = and_then (advance_all E steps) (\<lambda>_. read_stage E k)" by blast
  then show ?thesis
    by (simp add: grows_and_then grows_advance_all quiet_grows quiet_read_stage)
qed

lemma scrape_options_result:
  "scrape_options E isProduction q p =
     (case perform E (world p) Launch of
        Inl e \<Rightarrow>
          (failure_response isProduction e,
           \<lparr>world = world p, calls = calls p @ [Launch, ConsoleError ''Scraping error:'' e]\<rparr>)
      | Inr w \<Rightarrow>
          (case and_then (open_form E) (\<lambda>_. dispatch E q) \<lparr>world = w, calls = calls p @ [Launch]\<rparr> of
             (Inr r, p2) \<Rightarrow> (\<lparr>status = 200, body = Result r\<rparr>, p2\<lparr>calls := calls p2 @ [Close]\<rparr>)
           | (Inl e, p2) \<Rightarrow>
               (failure_response isProduction e,
                p2\<lparr>calls := calls p2 @ [ConsoleError ''Scraping error:'' e, Close]\<rparr>)))"
  by (simp add: scrape_options_def command_result logged_def split: sum.splits prod.splits)

lemma scrape_options_launches:
  "\<exists>cs. calls (snd (scrape_options E isProduction q p)) = calls p @ Launch # cs"
proof (cases "perform E (world p) Launch")
  case (Inl e)
  then show ?thesis by (simp add: scrape_options_result)
next
  case (Inr w)
  let ?p1 = "\<lparr>world = w, calls = calls p @ [Launch]\<rparr>"
  have "grows (and_then (open_form E) (\<lambda>_. dispatch E q))"
    by (simp add: grows_and_then quiet_grows quiet_open_form grows_dispatch)
  then obtain cs where cs: "calls (snd (and_then (open_form E) (\<lambda>_. dispatch E q) ?p1)) = calls ?p1 @ cs"
    unfolding grows_def by blast
  obtain r p2 where r: "and_then (open_form E) (\<lambda>_. dispatch E q) ?p1 = (r, p2)" by fastforce
  with cs have "calls p2 = calls p @ Launch # cs" by simp
  with Inr r show ?thesis
    by (cases r) (simp_all add: scrape_options_result)
qed

lemma scrape_options_quiet:
  assumes "quiet (dispatch E q)"
  shows "selects (calls (snd (scrape_options E isProduction q p))) = selects (calls p)"
proof (cases "perform E (world p) Launch")
  case (Inl e)
  then show ?thesis by (simp add: scrape_options_result)
next
  case (Inr w)
  let ?p1 = "\<lparr>world = w, calls = calls p @ [Launch]\<rparr>"
  from assms have "quiet (and_then (open_form E) (\<lambda>_. dispatch E q))"
    by (simp add: quiet_and_then quiet_open_form)
  then obtain cs where cs: "calls (snd (and_then (open_form E) (\<lambda>_. dispatch E q) ?p1)) = calls ?p1 @ cs"
    "selects cs = []"
    unfolding quiet_def by blast
  obtain r p2 where r: "and_then (open_form E) (\<lambda>_. dispatch E q) ?p1 = (r, p2)" by fastforce
  with cs have "selects (calls p2) = selects (calls p)" by simp
  with Inr r show ?thesis
    by (cases r) (simp_all add: scrape_options_result)
qed

lemma scrape_options_ok:
  assumes "status (fst (scrape_options E isProduction q p)) = 200"
  shows "\<exists>w p1 r p2. perform E (world p) Launch = Inr w
      \<and> open_form E \<lparr>world = w, calls = calls p @ [Launch]\<rparr> = (Inr (), p1)
      \<and> dispatch E q p1 = (Inr r, p2)
      \<and> scrape_options E isProduction q p =
          (\<lparr>status = 200, body = Result r\<rparr>, p2\<lparr>calls := calls p2 @ [Close]\<rparr>)"
proof (cases "perform E (world p) Launch")
  case (Inl e)
  with assms show ?thesis by (simp add: scrape_options_result failure_response_def)
next
  case (Inr w)
  let ?p0 = "\<lparr>world = w, calls = calls p @ [Launch]\<rparr>"
  obtain x p1 where o: "open_form E ?p0 = (x, p1)" by fastforce
  show ?thesis
  proof (cases x)
    case (Inl e)
    with assms Inr o show ?thesis
      by (simp add: scrape_options_result failure_response_def and_then_def)
  next
    case u: (Inr u)
    obtain y p2 where d: "dispatch E q p1 = (y, p2)" by fastforce
    show ?thesis
    proof (cases y)
      case (Inl e)
      with assms Inr o u d show ?thesis
        by (simp add: scrape_options_result failure_response_def and_then_def)
    next
      case r: (Inr r)
      with Inr o u d show ?thesis
        by (simp add: scrape_options_result and_then_def)
    qed
  qed
qed

lemma chain_all_selects:
  "map (\<lambda>(a, v, b). (a, v)) (chain q) = zip (map fst stages) (identifiers q)"
  by (simp add: chain_simp stages_def identifiers_def)

lemma not_contiguous_cases:
  assumes "\<not> contiguous q" and "\<not> truthy (makeId q)"
  shows "truthy (modelId q) \<or> truthy (yearId q) \<or> truthy (countryId q) \<or> truthy (fuelId q)"
proof (rule ccontr)
  assume "\<not> (truthy (modelId q) \<or> truthy (yearId q) \<or> truthy (countryId q) \<or> truthy (fuelId q))"
  with assms(2) have "contiguous q" by (simp add: contiguous_def identifiers_def)
  with assms(1) show False by simp
qed

lemma truthy_absent_if_empty [simp]: "truthy (absent_if_empty v) = truthy v"
  by (simp add: absent_if_empty_def)

lemma absent_if_empty_truthy [simp]: "truthy v \<Longrightarrow> absent_if_empty v = v"
  by (simp add: absent_if_empty_def)

lemma without_empties_sel [simp]:
  "makeId (without_empties q) = absent_if_empty (makeId q)"
  "modelId (without_empties q) = absent_if_empty (modelId q)"
  "yearId (without_empties q) = absent_if_empty (yearId q)"
  "countryId (without_empties q) = absent_if_empty (countryId q)"
  "fuelId (without_empties q) = absent_if_empty (fuelId q)"
  by (simp_all add: without_empties_def)

lemma dispatch_without_empties:
  assumes "truthy (makeId q) \<or> (\<not> truthy (modelId q) \<and> \<not> truthy (yearId q)
             \<and> \<not> truthy (countryId q) \<and> \<not> truthy (fuelId q))"
  shows "dispatch E (without_empties q) = dispatch E q"
proof (cases "truthy (makeId q)")
  case False
  with assms show ?thesis by (simp add: dispatch_def)
next
  case mk: True
  show ?thesis
  proof (cases "truthy (modelId q)")
    case False
    with mk show ?thesis by (simp add: dispatch_def)
  next
    case md: True
    show ?thesis
    proof (cases "truthy (yearId q)")
      case False
      with mk md show ?thesis by (simp add: dispatch_def)
    next
      case y: True
      show ?thesis
      proof (cases "truthy (countryId q)")
        case False
        with mk md y show ?thesis by (simp add: dispatch_def)
      next
        case c: True
        show ?thesis
        proof (cases "truthy (fuelId q)")
          case False
          with mk md y c show ?thesis by (simp add: dispatch_def)
        next
          case True
          with mk md y c show ?thesis by (simp add: dispatch_def)
        qed
      qed
    qed
  qed
qed

lemma wfdu_ok_world:
  assumes "fst (waitForDropdownUpdate E a v b p) = Inr u"
  shows "\<exists>w1 n. perform E (world p) (Select a v) = Inr w1
           \<and> world (snd (waitForDropdownUpdate E a v b p)) = (tick E ^^ n) w1"
proof (cases "perform E (world p) (Select a v)")
  case (Inl e)
  with assms show ?thesis by (simp add: wfdu_flat)
next
  case (Inr w1)
  have "\<exists>n. world (snd (waitForDropdownUpdate E a v b p)) = (tick E ^^ n) w1"
    using assms Inr
    by (auto simp add: wfdu_flat Let_def funpow_add[symmetric, unfolded comp_def, THEN fun_cong]
        split: option.splits if_splits)
  with Inr show ?thesis by blast
qed

lemma never_polled: "(\<And>i. \<not> c ((t ^^ i) w)) \<Longrightarrow> poll t c n w = None"
proof (cases "poll t c n w")
  case None
  then show ?thesis by simp
next
  case (Some k)
  assume "\<And>i. \<not> c ((t ^^ i) w)"
  with poll_Some[OF Some] show ?thesis by blast
qed

lemma wfdu_fast_path:
  assumes sel: "perform E (world p) (Select a v) = Inr w1"
    and never: "\<And>i. probe E ((tick E ^^ i) w1) ''#MainContent_UpdateProgress1'' \<noteq> Visible"
    and k: "k < 5000"
    and en: "probe E ((tick E ^^ k) w1) (b @ '':not([disabled])'') \<noteq> Absent"
  shows "\<exists>j\<le>k. waitForDropdownUpdate E a v b p =
     (Inr (), \<lparr>world = (tick E ^^ j) w1,
               calls = calls p @
                 [Select a v,
                  WaitForSelector ''#MainContent_UpdateProgress1'' VisibleTrue 5000,
                  WaitForSelector (b @ '':not([disabled])'') Present 5000,
                  Query ''#MainContent_UpdateProgress1''] @
                 (if probe E ((tick E ^^ j) w1) ''#MainContent_UpdateProgress1'' \<noteq> Absent
                  then [WaitForSelector ''#MainContent_UpdateProgress1'' HiddenTrue 15000] else []) @
                 [WaitForSelector (b @ '':not([disabled])'') Present 15000]\<rparr>)"
proof -
  let ?ind = "''#MainContent_UpdateProgress1''"
  let ?tgt = "b @ '':not([disabled])''"
  have A: "settle E w1 ?ind VisibleTrue 5000 =
      \<lparr>settles = 5000, rejection = Some (timeout_error E ?ind 5000)\<rparr>"
    using never by (simp add: settle_def never_polled)
  from k en have "\<exists>j\<le>k. poll (tick E) (\<lambda>w'. probe E w' ?tgt \<noteq> Absent) 5000 w1 = Some j"
    by (intro poll_first) simp_all
  then obtain j where j: "j \<le> k" "poll (tick E) (\<lambda>w'. probe E w' ?tgt \<noteq> Absent) 5000 w1 = Some j"
    by blast
  then have B: "settle E w1 ?tgt Present 5000 = \<lparr>settles = j, rejection = None\<rparr>"
    by (simp add: settle_def)
  from j k have r: "race (settle E w1 ?ind VisibleTrue 5000) (settle E w1 ?tgt Present 5000) =
      \<lparr>settles = j, rejection = None\<rparr>"
    by (simp add: race_def A B)
  let ?w2 = "(tick E ^^ j) w1"
  from poll_Some[OF j(2)] have en2: "probe E ?w2 ?tgt \<noteq> Absent" by simp
  then have fin: "poll (tick E) (\<lambda>w'. probe E w' ?tgt \<noteq> Absent) 15000 ?w2 = Some 0"
    by (simp add: poll_now)
  from never[of j] have hid: "poll (tick E) (\<lambda>w'. probe E w' ?ind \<noteq> Visible) 15000 ?w2 = Some 0"
    by (simp add: poll_now)
  have "waitForDropdownUpdate E a v b p =
     (Inr (), \<lparr>world = ?w2,
               calls = calls p @
                 [Select a v, WaitForSelector ?ind VisibleTrue 5000,
                  WaitForSelector ?tgt Present 5000, Query ?ind] @
                 (if probe E ?w2 ?ind \<noteq> Absent
                  then [WaitForSelector ?ind HiddenTrue 15000] else []) @
                 [WaitForSelector ?tgt Present 15000]\<rparr>)"
    by (simp add: wfdu_flat Let_def sel r fin hid)
  with j(1) show ?thesis by blast
qed

lemma wfdu_failure_logged:
  assumes "fst (waitForDropdownUpdate E a v b p) = Inl e"
  shows "\<exists>err. last (calls (snd (waitForDropdownUpdate E a v b p))) =
           ConsoleError (''Dropdown update failed from '' @ a @ '' to '' @ b @ '':'') err"
  using assms
  by (auto simp add: wfdu_flat Let_def split: sum.splits option.splits if_splits)

lemma wfdu_target_never_enabled:
  assumes sel: "perform E (world p) (Select a v) = Inr w1"
    and never: "\<And>i. probe E ((tick E ^^ i) w1) (b @ '':not([disabled])'') = Absent"
  shows "fst (waitForDropdownUpdate E a v b p) =
           Inl (Error (''Failed to load '' @ b @ '' after selecting '' @ to_string v))"
proof (cases "fst (waitForDropdownUpdate E a v b p)")
  case (Inl e)
  with wfdu_message[OF Inl] show ?thesis by simp
next
  case (Inr u)
  from wfdu_ok_world[OF Inr] sel obtain n where
    "world (snd (waitForDropdownUpdate E a v b p)) = (tick E ^^ n) w1" by auto
  with wfdu_ok_confirmed[OF Inr] never[of n] show ?thesis by simp
qed

lemma wfdu_indicator_never_hidden:
  assumes sel: "perform E (world p) (Select a v) = Inr w1"
    and always: "\<And>i. probe E ((tick E ^^ i) w1) ''#MainContent_UpdateProgress1'' = Visible"
  shows "fst (waitForDropdownUpdate E a v b p) =
           Inl (Error (''Failed to load '' @ b @ '' after selecting '' @ to_string v))"
proof -
  let ?ind = "''#MainContent_UpdateProgress1''"
  let ?tgt = "b @ '':not([disabled])''"
  from always[of 0] have now: "probe E w1 ?ind = Visible" by simp
  then have A: "settle E w1 ?ind VisibleTrue 5000 = \<lparr>settles = 0, rejection = None\<rparr>"
    by (simp add: settle_def poll_now)
  then have r: "race (settle E w1 ?ind VisibleTrue 5000) (settle E w1 ?tgt Present 5000) =
      \<lparr>settles = 0, rejection = None\<rparr>"
    by (simp add: race_def)
  have hid: "poll (tick E) (\<lambda>w'. probe E w' ?ind \<noteq> Visible) 15000 w1 = None"
    using always by (simp add: never_polled)
  show ?thesis
    by (simp add: wfdu_flat Let_def sel r now hid)
qed

lemma depth_le: "depth q \<le> 5"
proof -
  have "length (takeWhile truthy (identifiers q)) \<le> length (identifiers q)"
    by (rule length_takeWhile_le)
  then show ?thesis by (simp add: depth_def identifiers_def)
qed

lemma dispatch_walk_chain:
  "\<exists>steps k. dispatch E q = and_then (advance_all E steps) (\<lambda>_. read_stage E k)
     \<and> set steps \<subseteq> set (chain q) \<and> 0 < k \<and> k \<le> 6"
proof (cases "truthy (makeId q)")
  case True
  have "dispatch E q = and_then (advance_all E (take (depth q) (chain q)))
          (\<lambda>_. read_stage E (Suc (depth q)))"
    unfolding dispatch_prefix[OF True] resolve_spec_def by (rule refl)
  moreover have "set (take (depth q) (chain q)) \<subseteq> set (chain q)"
    by (rule set_take_subset)
  moreover have "0 < Suc (depth q)" "Suc (depth q) \<le> 6"
    using depth_le[of q] by simp_all
  ultimately show ?thesis by blast
next
  case False
  show ?thesis
  proof (cases "truthy (modelId q) \<or> truthy (yearId q) \<or> truthy (countryId q) \<or> truthy (fuelId q)")
    case True
    from dispatch_else[OF False True, of E] show ?thesis
      by (intro exI[of _ "chain q"] exI[of _ 6]) simp
  next
    case no: False
    with False have "dispatch E q = read_stage E 1" by (simp add: dispatch_none)
    then have "dispatch E q = and_then (advance_all E []) (\<lambda>_. read_stage E 1)"
      by (simp add: and_then_succeed_unit)
    then show ?thesis
      by (intro exI[of _ "[]"] exI[of _ 1]) simp
  qed
qed

lemma dispatch_failure:
  assumes "fst (dispatch E q p) = Inl e"
  shows "(\<exists>a v b. (a, v, b) \<in> set (chain q)
            \<and> e = Error (''Failed to load '' @ b @ '' after selecting '' @ to_string v))
       \<or> (\<exists>k<6. e = timeout_error E (fst (stages ! k) @ '':not([disabled])'') 15000)"
proof -
  from dispatch_walk_chain[of E q] obtain steps k where
    d: "dispatch E q = and_then (advance_all E steps) (\<lambda>_. read_stage E k)"
    and sub: "set steps \<subseteq> set (chain q)" and k: "0 < k" "k \<le> 6"
    by blast
  obtain x p1 where a: "advance_all E steps p = (x, p1)" by fastforce
  show ?thesis
  proof (cases x)
    case (Inl e')
    with a d assms have "fst (advance_all E steps p) = Inl e"
      by (simp add: and_then_def)
    from advance_all_message[OF this] sub show ?thesis by blast
  next
    case (Inr u)
    with a d assms have "fst (read_stage E k p1) = Inl e"
      by (simp add: and_then_def)
    from read_stage_message[OF this] k have
      "e = timeout_error E (fst (stages ! (k - 1)) @ '':not([disabled])'') 15000" "k - 1 < 6"
      by simp_all
    then show ?thesis by blast
  qed
qed

lemma dispatch_single_key:
  assumes "fst (dispatch E q p) = Inr r"
  shows "\<exists>key os. r = [(key, os)]"
proof -
  from dispatch_walk_chain[of E q] obtain steps k where
    d: "dispatch E q = and_then (advance_all E steps) (\<lambda>_. read_stage E k)"
    by blast
  obtain x p1 where a: "advance_all E steps p = (x, p1)" by fastforce
  show ?thesis
  proof (cases x)
    case (Inl e')
    with a d assms show ?thesis by (simp add: and_then_def)
  next
    case (Inr u)
    with a d assms have "fst (read_stage E k p1) = Inr r"
      by (simp add: and_then_def)
    from read_stage_trace[OF this] show ?thesis by blast
  qed
qed

lemma scrape_options_status:
  "status (fst (scrape_options E isProduction q p)) = 200
   \<or> (\<exists>e. fst (scrape_options E isProduction q p) = failure_response isProduction e)"
  by (auto simp add: scrape_options_result split: sum.splits prod.splits)

lemma scrape_options_dispatch_failure:
  assumes "perform E (world p) Launch = Inr w"
    and "open_form E \<lparr>world = w, calls = calls p @ [Launch]\<rparr> = (Inr (), p1)"
    and "fst (dispatch E q p1) = Inl e"
  shows "fst (scrape_options E isProduction q p) = failure_response isProduction e"
proof -
  obtain y p2 where d: "dispatch E q p1 = (y, p2)" by fastforce
  with assms(3) have "y = Inl e" by simp
  with assms(1,2) d show ?thesis
    by (simp add: scrape_options_result and_then_def)
qed

lemma rejection_settle:
  "rejection (settle E w sel opt ms) =
     (case poll (tick E) (\<lambda>w'. satisfied opt (probe E w' sel)) ms w of
        Some k \<Rightarrow> None | None \<Rightarrow> Some (timeout_error E sel ms))"
  by (simp add: settle_def split: option.splits)

lemma settles_settle:
  "settles (settle E w sel opt ms) =
     (case poll (tick E) (\<lambda>w'. satisfied opt (probe E w' sel)) ms w of
        Some k \<Rightarrow> k | None \<Rightarrow> ms)"
  by (simp add: settle_def split: option.splits)

lemma wfdu_step_rejects:
  assumes "perform E (world p) (Select a v) = Inr w1"
  shows "let r = race (settle E w1 ''#MainContent_UpdateProgress1'' VisibleTrue 5000)
                  (settle E w1 (b @ '':not([disabled])'') Present 5000);
             w2 = (tick E ^^ settles r) w1;
             h = settle E w2 ''#MainContent_UpdateProgress1'' HiddenTrue 15000;
             w3 = (if probe E w2 ''#MainContent_UpdateProgress1'' \<noteq> Absent
                   then (tick E ^^ settles h) w2 else w2)
         in rejection r \<noteq> None
            \<or> probe E w2 ''#MainContent_UpdateProgress1'' \<noteq> Absent \<and> rejection h \<noteq> None
            \<or> rejection (settle E w3 (b @ '':not([disabled])'') Present 15000) \<noteq> None \<longrightarrow>
            fst (waitForDropdownUpdate E a v b p) =
              Inl (Error (''Failed to load '' @ b @ '' after selecting '' @ to_string v))"
  using assms
  by (auto simp add: wfdu_flat Let_def rejection_settle settles_settle split: option.splits)

lemma wfdu_confirmation_issued:
  assumes "perform E (world p) (Select a v) = Inr w1"
  shows "let r = race (settle E w1 ''#MainContent_UpdateProgress1'' VisibleTrue 5000)
                  (settle E w1 (b @ '':not([disabled])'') Present 5000);
             w2 = (tick E ^^ settles r) w1;
             h = settle E w2 ''#MainContent_UpdateProgress1'' HiddenTrue 15000
         in rejection r = None
            \<and> (probe E w2 ''#MainContent_UpdateProgress1'' = Absent \<or> rejection h = None) \<longrightarrow>
            WaitForSelector (b @ '':not([disabled])'') Present 15000
              \<in> set (calls (snd (waitForDropdownUpdate E a v b p)))"
  using assms
  by (auto simp add: wfdu_flat Let_def rejection_settle settles_settle split: option.splits)

lemma wfdu_select_throws:
  assumes "perform E (world p) (Select a v) = Inl x"
  shows "waitForDropdownUpdate E a v b p =
     (Inl (Error (''Failed to load '' @ b @ '' after selecting '' @ to_string v)),
      \<lparr>world = world p,
       calls = calls p @
         [Select a v,
          ConsoleError (''Dropdown update failed from '' @ a @ '' to '' @ b @ '':'') x]\<rparr>)"
  using assms by (simp add: wfdu_flat Let_def)

section \<open>The example pages evaluated\<close>

lemma static_tick [simp]: "tick (static_page d) = (\<lambda>w. w)"
  by (simp add: static_page_def)

lemma static_probe [simp]: "probe (static_page d) w = d"
  by (simp add: static_page_def)

lemma static_matches [simp]:
  "matches (static_page d) w sel = [([], ''-- Select --''), (''1'', '' Toyota ''), (''2'', ''Nissan'')]"
  by (simp add: static_page_def)

lemma static_perform [simp]: "perform (static_page d) = strings_only"
  by (simp add: static_page_def)

lemma static_timeout [simp]:
  "timeout_error (static_page d) sel ms = Error (''Waiting for selector '' @ sel @ '' failed'')"
  by (simp add: static_page_def)

lemma funpow_same [simp]: "((\<lambda>w. w) ^^ n) = (\<lambda>w. w)"
  by (induction n) auto

lemma poll_same [simp]: "poll (\<lambda>w. w) c n w = (if c w then Some 0 else None)"
  by (rule poll_static) simp

lemma trim_examples [simp]: "trim '' Toyota '' = ''Toyota''" "trim ''Nissan'' = ''Nissan''"
  by (simp_all add: trim_def is_ws_def)

lemma read_at_rest:
  "getSelectOptions (static_page at_rest) ''#MainContent_ddlMake'' (blank 0) =
     (Inr [\<lparr>id_opt = ''1'', name_opt = ''Toyota''\<rparr>, \<lparr>id_opt = ''2'', name_opt = ''Nissan''\<rparr>],
      \<lparr>world = 0, calls = [WaitForSelector ''#MainContent_ddlMake:not([disabled])'' Present 15000,
                            EvalAll ''#MainContent_ddlMake option'']\<rparr>)"
  by (simp add: getSelectOptions_result at_rest_def blank_def)

lemma wfdu_at_rest:
  assumes "b @ '':not([disabled])'' \<noteq> ''#MainContent_UpdateProgress1''"
  shows "waitForDropdownUpdate (static_page at_rest) a (Str s) b p =
     (Inr (), \<lparr>world = world p,
               calls = calls p @
                 [Select a (Str s),
                  WaitForSelector ''#MainContent_UpdateProgress1'' VisibleTrue 5000,
                  WaitForSelector (b @ '':not([disabled])'') Present 5000,
                  Query ''#MainContent_UpdateProgress1'',
                  WaitForSelector ''#MainContent_UpdateProgress1'' HiddenTrue 15000,
                  WaitForSelector (b @ '':not([disabled])'') Present 15000]\<rparr>)"
  using assms by (simp add: wfdu_flat Let_def settle_def race_def at_rest_def)

lemma wfdu_undefined:
  "waitForDropdownUpdate (static_page d) a Undefined b p =
     (Inl (Error (''Failed to load '' @ b @ '' after selecting undefined'')),
      \<lparr>world = world p,
       calls = calls p @
         [Select a Undefined,
          ConsoleError (''Dropdown update failed from '' @ a @ '' to '' @ b @ '':'')
            (Error ''Values must be strings'')]\<rparr>)"
  by (simp add: wfdu_flat Let_def)

lemma gso_at_rest:
  assumes "sel @ '':not([disabled])'' \<noteq> ''#MainContent_UpdateProgress1''"
  shows "getSelectOptions (static_page at_rest) sel p =
     (Inr [\<lparr>id_opt = ''1'', name_opt = ''Toyota''\<rparr>, \<lparr>id_opt = ''2'', name_opt = ''Nissan''\<rparr>],
      \<lparr>world = world p,
       calls = calls p @ [WaitForSelector (sel @ '':not([disabled])'') Present 15000,
                          EvalAll (sel @ '' option'')]\<rparr>)"
  using assms by (simp add: getSelectOptions_result at_rest_def)

lemma years_at_rest:
  "dispatch (static_page at_rest) (request (Str ''1'') (Str ''5'') Undefined Undefined Undefined) (blank 0) =
     (Inr [(''years'', [\<lparr>id_opt = ''1'', name_opt = ''Toyota''\<rparr>, \<lparr>id_opt = ''2'', name_opt = ''Nissan''\<rparr>])],
      \<lparr>world = 0,
       calls =
         [Select ''#MainContent_ddlMake'' (Str ''1''),
          WaitForSelector ''#MainContent_UpdateProgress1'' VisibleTrue 5000,
          WaitForSelector ''#MainContent_ddlModel:not([disabled])'' Present 5000,
          Query ''#MainContent_UpdateProgress1'',
          WaitForSelector ''#MainContent_UpdateProgress1'' HiddenTrue 15000,
          WaitForSelector ''#MainContent_ddlModel:not([disabled])'' Present 15000,
          Select ''#MainContent_ddlModel'' (Str ''5''),
          WaitForSelector ''#MainContent_UpdateProgress1'' VisibleTrue 5000,
          WaitForSelector ''#MainContent_ddlYear:not([disabled])'' Present 5000,
          Query ''#MainContent_UpdateProgress1'',
          WaitForSelector ''#MainContent_UpdateProgress1'' HiddenTrue 15000,
          WaitForSelector ''#MainContent_ddlYear:not([disabled])'' Present 15000,
          WaitForSelector ''#MainContent_ddlYear:not([disabled])'' Present 15000,
          EvalAll ''#MainContent_ddlYear option'']\<rparr>)"
  by (simp add: dispatch_def request_def blank_def and_then_def succeed_def wfdu_at_rest gso_at_rest)

lemma makes_at_rest:
  "scrape_options (static_page at_rest) False (request (Str []) Undefined Undefined Undefined Undefined) (blank 0) =
     (\<lparr>status = 200,
       body = Result [(''makes'', [\<lparr>id_opt = ''1'', name_opt = ''Toyota''\<rparr>,
                                    \<lparr>id_opt = ''2'', name_opt = ''Nissan''\<rparr>])]\<rparr>,
      \<lparr>world = 0,
       calls = [Launch, NewPage,
              SetUserAgent ''Mozilla/5.0 (Windows NT 10.0; Win64; x64) AppleWebKit/537.36 (KHTML, like Gecko) Chrome/117.0.0.0 Safari/537.36'',
              SetDefaultNavigationTimeout 120000, Goto ''https://umvvs.tra.go.tz/'' 60000,
              WaitForSelector ''#MainContent_ddlMake:not([disabled])'' Present 15000,
              EvalAll ''#MainContent_ddlMake option'', Close]\<rparr>)"
  by (simp add: scrape_options_result open_form_def dispatch_def request_def blank_def
      and_then_def succeed_def command_result gso_at_rest)

lemma year_alone_at_rest:
  "dispatch (static_page at_rest) (request Undefined Undefined (Str ''x'') Undefined Undefined) (blank 0) =
     (Inl (Error ''Failed to load #MainContent_ddlModel after selecting undefined''),
      \<lparr>world = 0,
       calls = [Select ''#MainContent_ddlMake'' Undefined,
                ConsoleError ''Dropdown update failed from #MainContent_ddlMake to #MainContent_ddlModel:''
                  (Error ''Values must be strings'')]\<rparr>)"
  by (simp add: dispatch_def request_def blank_def and_then_def wfdu_undefined)

lemma models_at_rest:
  "scrape_options (static_page at_rest) False (request (Str ''1'') Undefined (Str ''2'') Undefined Undefined) (blank 0) =
     (\<lparr>status = 200,
       body = Result [(''models'', [\<lparr>id_opt = ''1'', name_opt = ''Toyota''\<rparr>,
                                     \<lparr>id_opt = ''2'', name_opt = ''Nissan''\<rparr>])]\<rparr>,
      \<lparr>world = 0,
       calls = [Launch, NewPage,
          SetUserAgent ''Mozilla/5.0 (Windows NT 10.0; Win64; x64) AppleWebKit/537.36 (KHTML, like Gecko) Chrome/117.0.0.0 Safari/537.36'',
          SetDefaultNavigationTimeout 120000, Goto ''https://umvvs.tra.go.tz/'' 60000,
          Select ''#MainContent_ddlMake'' (Str ''1''),
          WaitForSelector ''#MainContent_UpdateProgress1'' VisibleTrue 5000,
          WaitForSelector ''#MainContent_ddlModel:not([disabled])'' Present 5000,
          Query ''#MainContent_UpdateProgress1'',
          WaitForSelector ''#MainContent_UpdateProgress1'' HiddenTrue 15000,
          WaitForSelector ''#MainContent_ddlModel:not([disabled])'' Present 15000,
          WaitForSelector ''#MainContent_ddlModel:not([disabled])'' Present 15000,
          EvalAll ''#MainContent_ddlModel option'', Close]\<rparr>)"
  by (simp add: scrape_options_result open_form_def dispatch_def request_def blank_def
      and_then_def succeed_def command_result wfdu_at_rest gso_at_rest)

lemma empty_make_with_year_at_rest:
  "fst (scrape_options (static_page at_rest) False
         (request (Str []) Undefined (Str ''x'') Undefined Undefined) (blank 0)) =
     \<lparr>status = 500,
      body = Failure ''Scraping failed''
               ''Failed to load #MainContent_ddlYear after selecting undefined''
               ''Try running with headless: false for debugging''\<rparr>"
  by (simp add: scrape_options_result open_form_def dispatch_def request_def blank_def
      and_then_def succeed_def command_result wfdu_at_rest wfdu_undefined failure_response_def)

lemma absent_make_with_year_at_rest:
  "fst (scrape_options (static_page at_rest) False
         (request Undefined Undefined (Str ''x'') Undefined Undefined) (blank 0)) =
     \<lparr>status = 500,
      body = Failure ''Scraping failed''
               ''Failed to load #MainContent_ddlModel after selecting undefined''
               ''Try running with headless: false for debugging''\<rparr>"
  by (simp add: scrape_options_result open_form_def dispatch_def request_def blank_def
      and_then_def succeed_def command_result wfdu_at_rest wfdu_undefined failure_response_def)

lemma slow_simps [simp]:
  "perform slow_page = restart_clock" "tick slow_page = Suc"
  "probe slow_page w sel = (if sel = ''#MainContent_UpdateProgress1'' then Hidden
                         else if 100 \<le> w then Visible else Absent)"
  by (simp_all add: slow_page_def)

lemma wfdu_stuck:
  "waitForDropdownUpdate (static_page stuck) ''#MainContent_ddlMake'' (Str ''7'')
     ''#MainContent_ddlModel'' (blank 0) =
   (Inl (Error ''Failed to load #MainContent_ddlModel after selecting 7''),
    \<lparr>world = 0,
     calls = [Select ''#MainContent_ddlMake'' (Str ''7''),
              WaitForSelector ''#MainContent_UpdateProgress1'' VisibleTrue 5000,
              WaitForSelector ''#MainContent_ddlModel:not([disabled])'' Present 5000,
              ConsoleError ''Dropdown update failed from #MainContent_ddlMake to #MainContent_ddlModel:''
                (Error ''Waiting for selector #MainContent_UpdateProgress1 failed'')]\<rparr>)"
  by (simp add: wfdu_flat Let_def settle_def race_def stuck_def blank_def)

lemma open_form_at_rest:
  "open_form (static_page at_rest) \<lparr>world = 0, calls = cs\<rparr> =
     (Inr (), \<lparr>world = 0,
        calls = cs @ [NewPage,
          SetUserAgent ''Mozilla/5.0 (Windows NT 10.0; Win64; x64) AppleWebKit/537.36 (KHTML, like Gecko) Chrome/117.0.0.0 Safari/537.36'',
          SetDefaultNavigationTimeout 120000, Goto ''https://umvvs.tra.go.tz/'' 60000]\<rparr>)"
  by (simp add: open_form_def and_then_def command_result)

lemma model_step_fails_at_rest:
  "fst (dispatch (static_page at_rest) (request (Str []) Undefined (Str ''x'') Undefined Undefined)
          \<lparr>world = 0, calls = cs\<rparr>) =
     Inl (Error ''Failed to load #MainContent_ddlYear after selecting undefined'')"
  by (simp add: dispatch_def request_def and_then_def wfdu_at_rest wfdu_undefined)

section \<open>The claims\<close>

text \<open>
  C5. For every stage, the OptionSet that \<^verbatim>\<open>getSelectOptions\<close> returns is the raw list
  of (value, label) pairs without its first entry, in the order of the source: entry \<open>i\<close>
  of the result has the value of raw entry \<open>i + 1\<close>, and its name is that entry's
  label without the white space around it (the label is the name between two runs of
  white space, and a name that is not empty neither starts nor ends with white space).
\<close>

theorem c5_option_set:
  assumes "fst (getSelectOptions E sel p) = Inr os"
  shows "os = map (\<lambda>el. \<lparr>id_opt = fst el, name_opt = trim (snd el)\<rparr>)
               (drop 1 (matches E (world (snd (getSelectOptions E sel p))) (sel @ '' option'')))
    \<and> length os = length (matches E (world (snd (getSelectOptions E sel p))) (sel @ '' option'')) - 1
    \<and> (\<forall>i<length os.
          id_opt (os ! i) = fst (matches E (world (snd (getSelectOptions E sel p))) (sel @ '' option'') ! Suc i)
        \<and> (\<exists>a b. snd (matches E (world (snd (getSelectOptions E sel p))) (sel @ '' option'') ! Suc i)
                    = a @ name_opt (os ! i) @ b \<and> list_all is_ws a \<and> list_all is_ws b)
        \<and> (name_opt (os ! i) = [] \<or>
             \<not> is_ws (hd (name_opt (os ! i))) \<and> \<not> is_ws (last (name_opt (os ! i)))))"
proof -
  let ?raw = "matches E (world (snd (getSelectOptions E sel p))) (sel @ '' option'')"
  from assms have os: "os = map (\<lambda>el. \<lparr>id_opt = fst el, name_opt = trim (snd el)\<rparr>) (drop 1 ?raw)"
    by (auto simp add: getSelectOptions_result split: option.splits)
  then have len: "length os = length ?raw - 1" by simp
  have each: "id_opt (os ! i) = fst (?raw ! Suc i)
        \<and> (\<exists>a b. snd (?raw ! Suc i) = a @ name_opt (os ! i) @ b \<and> list_all is_ws a \<and> list_all is_ws b)
        \<and> (name_opt (os ! i) = [] \<or>
             \<not> is_ws (hd (name_opt (os ! i))) \<and> \<not> is_ws (last (name_opt (os ! i))))"
    if "i < length os" for i
  proof -
    from that len have i: "i < length (drop 1 ?raw)" by simp
    with os have "os ! i = \<lparr>id_opt = fst (?raw ! Suc i), name_opt = trim (snd (?raw ! Suc i))\<rparr>"
      by simp
    then show ?thesis
      using trim_around[of "snd (?raw ! Suc i)"] trim_hd[of "snd (?raw ! Suc i)"]
        trim_last[of "snd (?raw ! Suc i)"]
      by auto
  qed
  from os len each show ?thesis by blast
qed



theorem c5_option_set_witness:
  "fst (getSelectOptions (static_page at_rest) ''#MainContent_ddlMake'' (blank 0)) =
     Inr [\<lparr>id_opt = ''1'', name_opt = ''Toyota''\<rparr>, \<lparr>id_opt = ''2'', name_opt = ''Nissan''\<rparr>]
   \<and> [\<lparr>id_opt = ''1'', name_opt = ''Toyota''\<rparr>, \<lparr>id_opt = ''2'', name_opt = ''Nissan''\<rparr>] =
       map (\<lambda>el. \<lparr>id_opt = fst el, name_opt = trim (snd el)\<rparr>)
         (drop 1 [([], ''-- Select --''), (''1'', '' Toyota ''), (''2'', ''Nissan'')])
   \<and> length [\<lparr>id_opt = ''1'', name_opt = ''Toyota''\<rparr>, \<lparr>id_opt = ''2'', name_opt = ''Nissan''\<rparr>] = 3 - 1"
proof -
  have ok: "fst (getSelectOptions (static_page at_rest) ''#MainContent_ddlMake'' (blank 0)) =
     Inr [\<lparr>id_opt = ''1'', name_opt = ''Toyota''\<rparr>, \<lparr>id_opt = ''2'', name_opt = ''Nissan''\<rparr>]"
    by (simp add: read_at_rest)
  from c5_option_set[OF ok] ok show ?thesis
    by simp
qed

text \<open>
  C1. For every request whose contiguous identifier prefix has length \<open>d > 0\<close> (a valid
  request in particular), the branch taken is the walk of the specification:
  \<^verbatim>\<open>waitForDropdownUpdate\<close> is invoked for the first \<open>d\<close> steps of the chain, in chain
  order, with the supplied identifiers in that order, each invocation starting in the
  state its predecessor returned, and stage \<open>d + 1\<close> is read in the state the last one
  returned. When the resolution succeeds, the calls issued hold exactly these \<open>d\<close>
  \<^verbatim>\<open>page.select\<close> calls, one per invocation, all before the two calls of the read,
  which come last.
\<close>

theorem c1_resolve_walks_prefix:
  assumes "depth q = d" and "0 < d"
  shows "dispatch E q p =
           and_then (advance_all E (take d (chain q))) (\<lambda>_. read_stage E (Suc d)) p
     \<and> (\<forall>r. fst (dispatch E q p) = Inr r \<longrightarrow>
          (\<exists>cs. calls (snd (dispatch E q p)) =
                  calls p @ cs @ [WaitForSelector (fst (stages ! d) @ '':not([disabled])'') Present 15000,
                                  EvalAll (fst (stages ! d) @ '' option'')]
               \<and> selects cs = take d (zip (map fst stages) (identifiers q))))"
proof -
  from assms have "truthy (makeId q)" by (simp add: depth_pos)
  then have eq: "dispatch E q p =
      and_then (advance_all E (take d (chain q))) (\<lambda>_. read_stage E (Suc d)) p"
    using assms(1) by (simp add: dispatch_prefix resolve_spec_def)
  have "\<exists>cs. calls (snd (dispatch E q p)) =
                  calls p @ cs @ [WaitForSelector (fst (stages ! d) @ '':not([disabled])'') Present 15000,
                                  EvalAll (fst (stages ! d) @ '' option'')]
               \<and> selects cs = take d (zip (map fst stages) (identifiers q))"
    if "fst (dispatch E q p) = Inr r" for r
  proof -
    from that eq have "fst (and_then (advance_all E (take d (chain q))) (\<lambda>_. read_stage E (Suc d)) p) = Inr r"
      by simp
    from walk_then_read_trace[OF this] show ?thesis
      by (simp add: eq chain_selects)
  qed
  with eq show ?thesis by blast
qed

theorem c1_resolve_walks_prefix_witness:
  "depth (request (Str ''1'') (Str ''5'') Undefined Undefined Undefined) = 2
   \<and> contiguous (request (Str ''1'') (Str ''5'') Undefined Undefined Undefined)
   \<and> dispatch (static_page at_rest) (request (Str ''1'') (Str ''5'') Undefined Undefined Undefined) (blank 0) =
       and_then (advance_all (static_page at_rest)
                   [(''#MainContent_ddlMake'', Str ''1'', ''#MainContent_ddlModel''),
                    (''#MainContent_ddlModel'', Str ''5'', ''#MainContent_ddlYear'')])
         (\<lambda>_. read_stage (static_page at_rest) 3) (blank 0)
   \<and> fst (dispatch (static_page at_rest) (request (Str ''1'') (Str ''5'') Undefined Undefined Undefined) (blank 0)) =
       Inr [(''years'', [\<lparr>id_opt = ''1'', name_opt = ''Toyota''\<rparr>, \<lparr>id_opt = ''2'', name_opt = ''Nissan''\<rparr>])]
   \<and> selects (calls (snd (dispatch (static_page at_rest)
         (request (Str ''1'') (Str ''5'') Undefined Undefined Undefined) (blank 0)))) =
       [(''#MainContent_ddlMake'', Str ''1''), (''#MainContent_ddlModel'', Str ''5'')]"
proof -
  have d: "depth (request (Str ''1'') (Str ''5'') Undefined Undefined Undefined) = 2"
    by (simp add: depth_def identifiers_def request_def)
  have c: "contiguous (request (Str ''1'') (Str ''5'') Undefined Undefined Undefined)"
    by (simp add: contiguous_def identifiers_def request_def)
  have pos: "0 < (2::nat)" by simp
  from c1_resolve_walks_prefix[OF d pos, of "static_page at_rest" "blank 0"]
  have "dispatch (static_page at_rest) (request (Str ''1'') (Str ''5'') Undefined Undefined Undefined) (blank 0) =
       and_then (advance_all (static_page at_rest)
                   (take 2 (chain (request (Str ''1'') (Str ''5'') Undefined Undefined Undefined))))
         (\<lambda>_. read_stage (static_page at_rest) (Suc 2)) (blank 0)"
    by blast
  then have e: "dispatch (static_page at_rest) (request (Str ''1'') (Str ''5'') Undefined Undefined Undefined) (blank 0) =
       and_then (advance_all (static_page at_rest)
                   [(''#MainContent_ddlMake'', Str ''1'', ''#MainContent_ddlModel''),
                    (''#MainContent_ddlModel'', Str ''5'', ''#MainContent_ddlYear'')])
         (\<lambda>_. read_stage (static_page at_rest) 3) (blank 0)"
    by (simp add: chain_simp request_def eval_nat_numeral)
  have f: "fst (dispatch (static_page at_rest) (request (Str ''1'') (Str ''5'') Undefined Undefined Undefined) (blank 0)) =
       Inr [(''years'', [\<lparr>id_opt = ''1'', name_opt = ''Toyota''\<rparr>, \<lparr>id_opt = ''2'', name_opt = ''Nissan''\<rparr>])]"
    by (simp add: years_at_rest)
  have g: "selects (calls (snd (dispatch (static_page at_rest)
         (request (Str ''1'') (Str ''5'') Undefined Undefined Undefined) (blank 0)))) =
       [(''#MainContent_ddlMake'', Str ''1''), (''#MainContent_ddlModel'', Str ''5'')]"
    by (simp add: years_at_rest)
  from d c e f g show ?thesis by (intro conjI)
qed

text \<open>
  C8. For every request with no identifier supplied (each absent or empty), the
  dispatch is the read of stage 1 alone: the handler issues no \<^verbatim>\<open>page.select\<close>, so
  \<^verbatim>\<open>waitForDropdownUpdate\<close> is never invoked, and a successful result is exactly the
  Make OptionSet. On success the only calls between the navigation and the closing of
  the browser are the two of that read: it reads the freshly loaded page.
\<close>

theorem c8_depth_zero_reads_makes:
  assumes "\<not> truthy (makeId q)" "\<not> truthy (modelId q)" "\<not> truthy (yearId q)"
    "\<not> truthy (countryId q)" "\<not> truthy (fuelId q)"
  shows "dispatch E q p = read_stage E 1 p
    \<and> selects (calls (snd (scrape_options E isProduction q p))) = selects (calls p)
    \<and> (\<forall>r. fst (dispatch E q p) = Inr r \<longrightarrow>
          r = [(''makes'',
                map (\<lambda>el. \<lparr>id_opt = fst el, name_opt = trim (snd el)\<rparr>)
                  (drop 1 (matches E (world (snd (dispatch E q p))) ''#MainContent_ddlMake option'')))]
        \<and> calls (snd (dispatch E q p)) =
            calls p @ [WaitForSelector ''#MainContent_ddlMake:not([disabled])'' Present 15000,
                       EvalAll ''#MainContent_ddlMake option''])
    \<and> (status (fst (scrape_options E isProduction q p)) = 200 \<longrightarrow>
          calls (snd (scrape_options E isProduction q p)) =
            calls p @ [Launch, NewPage,
              SetUserAgent ''Mozilla/5.0 (Windows NT 10.0; Win64; x64) AppleWebKit/537.36 (KHTML, like Gecko) Chrome/117.0.0.0 Safari/537.36'',
              SetDefaultNavigationTimeout 120000, Goto ''https://umvvs.tra.go.tz/'' 60000,
              WaitForSelector ''#MainContent_ddlMake:not([disabled])'' Present 15000,
              EvalAll ''#MainContent_ddlMake option'', Close])"
proof -
  from assms have eq: "dispatch E q = read_stage E 1" by (rule dispatch_none)
  then have quiet: "quiet (dispatch E q)" by (simp add: quiet_read_stage)
  have read: "r = [(''makes'',
                map (\<lambda>el. \<lparr>id_opt = fst el, name_opt = trim (snd el)\<rparr>)
                  (drop 1 (matches E (world (snd (dispatch E q p'))) ''#MainContent_ddlMake option'')))]
        \<and> calls (snd (dispatch E q p')) =
            calls p' @ [WaitForSelector ''#MainContent_ddlMake:not([disabled])'' Present 15000,
                       EvalAll ''#MainContent_ddlMake option'']"
    if "fst (dispatch E q p') = Inr r" for r p'
  proof -
    from that eq have "fst (read_stage E 1 p') = Inr r" by simp
    from read_stage_trace[OF this] show ?thesis by (simp add: eq stages_def)
  qed
  have whole: "calls (snd (scrape_options E isProduction q p)) =
            calls p @ [Launch, NewPage,
              SetUserAgent ''Mozilla/5.0 (Windows NT 10.0; Win64; x64) AppleWebKit/537.36 (KHTML, like Gecko) Chrome/117.0.0.0 Safari/537.36'',
              SetDefaultNavigationTimeout 120000, Goto ''https://umvvs.tra.go.tz/'' 60000,
              WaitForSelector ''#MainContent_ddlMake:not([disabled])'' Present 15000,
              EvalAll ''#MainContent_ddlMake option'', Close]"
    if "status (fst (scrape_options E isProduction q p)) = 200"
  proof -
    from scrape_options_ok[OF that] obtain w p1 r p2 where
      ok: "open_form E \<lparr>world = w, calls = calls p @ [Launch]\<rparr> = (Inr (), p1)"
          "dispatch E q p1 = (Inr r, p2)"
          "scrape_options E isProduction q p =
             (\<lparr>status = 200, body = Result r\<rparr>, p2\<lparr>calls := calls p2 @ [Close]\<rparr>)"
      by blast
    from ok(1) have "fst (open_form E \<lparr>world = w, calls = calls p @ [Launch]\<rparr>) = Inr ()" by simp
    from open_form_trace[OF this] ok(1) have c1: "calls p1 = calls p @ [Launch, NewPage,
              SetUserAgent ''Mozilla/5.0 (Windows NT 10.0; Win64; x64) AppleWebKit/537.36 (KHTML, like Gecko) Chrome/117.0.0.0 Safari/537.36'',
              SetDefaultNavigationTimeout 120000, Goto ''https://umvvs.tra.go.tz/'' 60000]"
      by simp
    from ok(2) have "fst (dispatch E q p1) = Inr r" by simp
    from read[OF this] ok(2) have "calls p2 = calls p1 @
        [WaitForSelector ''#MainContent_ddlMake:not([disabled])'' Present 15000,
         EvalAll ''#MainContent_ddlMake option'']"
      by simp
    with c1 ok(3) show ?thesis by simp
  qed
  from eq read[of p] whole scrape_options_quiet[OF quiet, of isProduction p]
  show ?thesis by simp
qed

theorem c8_depth_zero_reads_makes_witness:
  "\<not> truthy (makeId (request (Str []) Undefined Undefined Undefined Undefined))
   \<and> depth (request (Str []) Undefined Undefined Undefined Undefined) = 0
   \<and> dispatch (static_page at_rest) (request (Str []) Undefined Undefined Undefined Undefined) (blank 0) =
       read_stage (static_page at_rest) 1 (blank 0)
   \<and> selects (calls (snd (scrape_options (static_page at_rest) False
         (request (Str []) Undefined Undefined Undefined Undefined) (blank 0)))) = []
   \<and> fst (scrape_options (static_page at_rest) False
         (request (Str []) Undefined Undefined Undefined Undefined) (blank 0)) =
       \<lparr>status = 200,
        body = Result [(''makes'', [\<lparr>id_opt = ''1'', name_opt = ''Toyota''\<rparr>,
                                     \<lparr>id_opt = ''2'', name_opt = ''Nissan''\<rparr>])]\<rparr>"
proof -
  let ?q = "request (Str []) Undefined Undefined Undefined Undefined"
  have h: "\<not> truthy (makeId ?q)" "\<not> truthy (modelId ?q)" "\<not> truthy (yearId ?q)"
    "\<not> truthy (countryId ?q)" "\<not> truthy (fuelId ?q)"
    by (simp_all add: request_def)
  have d: "depth ?q = 0" by (simp add: depth_def identifiers_def request_def)
  from c8_depth_zero_reads_makes[OF h, of "static_page at_rest" "blank 0" False]
  have a: "dispatch (static_page at_rest) ?q (blank 0) = read_stage (static_page at_rest) 1 (blank 0)"
    and b: "selects (calls (snd (scrape_options (static_page at_rest) False ?q (blank 0)))) =
       selects (calls (blank 0 :: nat page))"
    by blast+
  from b have b': "selects (calls (snd (scrape_options (static_page at_rest) False ?q (blank 0)))) = []"
    by (simp add: blank_def)
  have c: "fst (scrape_options (static_page at_rest) False ?q (blank 0)) =
       \<lparr>status = 200,
        body = Result [(''makes'', [\<lparr>id_opt = ''1'', name_opt = ''Toyota''\<rparr>,
                                     \<lparr>id_opt = ''2'', name_opt = ''Nissan''\<rparr>])]\<rparr>"
    by (simp add: makes_at_rest)
  from h(1) d a b' c show ?thesis by (intro conjI)
qed

text \<open>
  C10. The dispatch is exhaustive through its final \<^verbatim>\<open>else\<close>: every request that
  matches none of the five guards (a request with \<^verbatim>\<open>yearId\<close> alone among them) is
  handled by the Engine branch, which attempts the five advances of the chain in order,
  with the identifier values as supplied (\<^verbatim>\<open>undefined\<close> where absent), the first
  failure ending the walk, and then reads the Engine field.
\<close>

theorem c10_else_branch_walks_all:
  assumes "\<not> (\<not> truthy (makeId q) \<and> \<not> truthy (modelId q) \<and> \<not> truthy (yearId q)
               \<and> \<not> truthy (countryId q) \<and> \<not> truthy (fuelId q))"
    and "\<not> (truthy (makeId q) \<and> \<not> truthy (modelId q))"
    and "\<not> (truthy (makeId q) \<and> truthy (modelId q) \<and> \<not> truthy (yearId q))"
    and "\<not> (truthy (makeId q) \<and> truthy (modelId q) \<and> truthy (yearId q) \<and> \<not> truthy (countryId q))"
    and "\<not> (truthy (makeId q) \<and> truthy (modelId q) \<and> truthy (yearId q) \<and> truthy (countryId q)
               \<and> \<not> truthy (fuelId q))"
  shows "dispatch E q p =
           and_then (advance_all E
             [(''#MainContent_ddlMake'', makeId q, ''#MainContent_ddlModel''),
              (''#MainContent_ddlModel'', modelId q, ''#MainContent_ddlYear''),
              (''#MainContent_ddlYear'', yearId q, ''#MainContent_ddlCountry''),
              (''#MainContent_ddlCountry'', countryId q, ''#MainContent_ddlFuel''),
              (''#MainContent_ddlFuel'', fuelId q, ''#MainContent_ddlEngine'')])
             (\<lambda>_. read_stage E 6) p
     \<and> (\<forall>r. fst (dispatch E q p) = Inr r \<longrightarrow>
          (\<exists>cs. calls (snd (dispatch E q p)) =
                  calls p @ cs @ [WaitForSelector ''#MainContent_ddlEngine:not([disabled])'' Present 15000,
                                  EvalAll ''#MainContent_ddlEngine option'']
               \<and> selects cs =
                   [(''#MainContent_ddlMake'', makeId q), (''#MainContent_ddlModel'', modelId q),
                    (''#MainContent_ddlYear'', yearId q), (''#MainContent_ddlCountry'', countryId q),
                    (''#MainContent_ddlFuel'', fuelId q)]))"
proof -
  have eq: "dispatch E q = and_then (advance_all E (chain q)) (\<lambda>_. read_stage E 6)"
  proof (cases "truthy (makeId q)")
    case True
    with assms have "truthy (modelId q)" "truthy (yearId q)" "truthy (countryId q)" "truthy (fuelId q)"
      by blast+
    with True show ?thesis
      by (simp add: dispatch_def chain_simp read_stage_simps and_then_assoc and_then_succeed_unit)
  next
    case False
    with assms(1) have "truthy (modelId q) \<or> truthy (yearId q) \<or> truthy (countryId q) \<or> truthy (fuelId q)"
      by blast
    from dispatch_else[OF False this] show ?thesis .
  qed
  have "\<exists>cs. calls (snd (dispatch E q p)) =
                  calls p @ cs @ [WaitForSelector ''#MainContent_ddlEngine:not([disabled])'' Present 15000,
                                  EvalAll ''#MainContent_ddlEngine option'']
               \<and> selects cs =
                   [(''#MainContent_ddlMake'', makeId q), (''#MainContent_ddlModel'', modelId q),
                    (''#MainContent_ddlYear'', yearId q), (''#MainContent_ddlCountry'', countryId q),
                    (''#MainContent_ddlFuel'', fuelId q)]"
    if "fst (dispatch E q p) = Inr r" for r
  proof -
    from that eq have "fst (and_then (advance_all E (chain q)) (\<lambda>_. read_stage E 6) p) = Inr r"
      by simp
    from walk_then_read_trace[OF this] show ?thesis
      by (simp add: eq chain_all_selects) (simp add: stages_def identifiers_def)
  qed
  with eq show ?thesis by (simp add: chain_simp)
qed

theorem c10_else_branch_walks_all_witness:
  "truthy (yearId (request Undefined Undefined (Str ''x'') Undefined Undefined))
   \<and> \<not> truthy (modelId (request Undefined Undefined (Str ''x'') Undefined Undefined))
   \<and> dispatch (static_page at_rest) (request Undefined Undefined (Str ''x'') Undefined Undefined) (blank 0) =
       and_then (advance_all (static_page at_rest)
             [(''#MainContent_ddlMake'', Undefined, ''#MainContent_ddlModel''),
              (''#MainContent_ddlModel'', Undefined, ''#MainContent_ddlYear''),
              (''#MainContent_ddlYear'', Str ''x'', ''#MainContent_ddlCountry''),
              (''#MainContent_ddlCountry'', Undefined, ''#MainContent_ddlFuel''),
              (''#MainContent_ddlFuel'', Undefined, ''#MainContent_ddlEngine'')])
             (\<lambda>_. read_stage (static_page at_rest) 6) (blank 0)
   \<and> fst (dispatch (static_page at_rest) (request Undefined Undefined (Str ''x'') Undefined Undefined) (blank 0)) =
       Inl (Error ''Failed to load #MainContent_ddlModel after selecting undefined'')"
proof -
  let ?q = "request Undefined Undefined (Str ''x'') Undefined Undefined"
  have y: "truthy (yearId ?q)" and m: "\<not> truthy (modelId ?q)"
    by (simp_all add: request_def)
  have g: "\<not> (\<not> truthy (makeId ?q) \<and> \<not> truthy (modelId ?q) \<and> \<not> truthy (yearId ?q)
               \<and> \<not> truthy (countryId ?q) \<and> \<not> truthy (fuelId ?q))"
    "\<not> (truthy (makeId ?q) \<and> \<not> truthy (modelId ?q))"
    "\<not> (truthy (makeId ?q) \<and> truthy (modelId ?q) \<and> \<not> truthy (yearId ?q))"
    "\<not> (truthy (makeId ?q) \<and> truthy (modelId ?q) \<and> truthy (yearId ?q) \<and> \<not> truthy (countryId ?q))"
    "\<not> (truthy (makeId ?q) \<and> truthy (modelId ?q) \<and> truthy (yearId ?q) \<and> truthy (countryId ?q)
               \<and> \<not> truthy (fuelId ?q))"
    by (simp_all add: request_def)
  from c10_else_branch_walks_all[OF g, of "static_page at_rest" "blank 0"]
  have "dispatch (static_page at_rest) ?q (blank 0) =
       and_then (advance_all (static_page at_rest)
             [(''#MainContent_ddlMake'', makeId ?q, ''#MainContent_ddlModel''),
              (''#MainContent_ddlModel'', modelId ?q, ''#MainContent_ddlYear''),
              (''#MainContent_ddlYear'', yearId ?q, ''#MainContent_ddlCountry''),
              (''#MainContent_ddlCountry'', countryId ?q, ''#MainContent_ddlFuel''),
              (''#MainContent_ddlFuel'', fuelId ?q, ''#MainContent_ddlEngine'')])
             (\<lambda>_. read_stage (static_page at_rest) 6) (blank 0)"
    by blast
  then have e: "dispatch (static_page at_rest) ?q (blank 0) =
       and_then (advance_all (static_page at_rest)
             [(''#MainContent_ddlMake'', Undefined, ''#MainContent_ddlModel''),
              (''#MainContent_ddlModel'', Undefined, ''#MainContent_ddlYear''),
              (''#MainContent_ddlYear'', Str ''x'', ''#MainContent_ddlCountry''),
              (''#MainContent_ddlCountry'', Undefined, ''#MainContent_ddlFuel''),
              (''#MainContent_ddlFuel'', Undefined, ''#MainContent_ddlEngine'')])
             (\<lambda>_. read_stage (static_page at_rest) 6) (blank 0)"
    by (simp add: request_def)
  have f: "fst (dispatch (static_page at_rest) ?q (blank 0)) =
       Inl (Error ''Failed to load #MainContent_ddlModel after selecting undefined'')"
    by (simp add: year_alone_at_rest)
  from y m e f show ?thesis by (intro conjI)
qed

text \<open>
  C4, as amended. A request that supplies a later identifier while skipping an earlier
  one is not rejected: the browser is launched as for any request, and the request is
  then served by the branch it matches. With a non-empty \<^verbatim>\<open>makeId\<close> that is the walk
  over its contiguous prefix followed by the read of the next stage (the identifiers
  beyond the gap are ignored); with an empty or absent \<^verbatim>\<open>makeId\<close> it is the final
  \<^verbatim>\<open>else\<close> branch, which attempts the five advances with the values as supplied.
  The counterexample is the request \<^verbatim>\<open>{ makeId: "1", yearId: "2" }\<close>, answered with
  status 200 and the Model OptionSet after the page has been driven.
\<close>

theorem c4_skipped_identifier_is_served:
  assumes "\<not> contiguous q"
  shows "(\<exists>cs. calls (snd (scrape_options E isProduction q p)) = calls p @ Launch # cs)
    \<and> (truthy (makeId q) \<longrightarrow>
         dispatch E q p =
           and_then (advance_all E (take (depth q) (chain q))) (\<lambda>_. read_stage E (Suc (depth q))) p)
    \<and> (\<not> truthy (makeId q) \<longrightarrow>
         dispatch E q p = and_then (advance_all E (chain q)) (\<lambda>_. read_stage E 6) p)"
proof -
  have a: "dispatch E q p =
      and_then (advance_all E (take (depth q) (chain q))) (\<lambda>_. read_stage E (Suc (depth q))) p"
    if "truthy (makeId q)"
    using dispatch_prefix[OF that, of E] by (simp add: resolve_spec_def)
  have b: "dispatch E q p = and_then (advance_all E (chain q)) (\<lambda>_. read_stage E 6) p"
    if "\<not> truthy (makeId q)"
    using dispatch_else[OF that not_contiguous_cases[OF assms that], of E] by simp
  from a b scrape_options_launches[of E isProduction q p] show ?thesis by blast
qed

theorem c4_skipped_identifier_counterexample:
  "\<not> contiguous (request (Str ''1'') Undefined (Str ''2'') Undefined Undefined)
   \<and> truthy (yearId (request (Str ''1'') Undefined (Str ''2'') Undefined Undefined))
   \<and> \<not> truthy (modelId (request (Str ''1'') Undefined (Str ''2'') Undefined Undefined))
   \<and> scrape_options (static_page at_rest) False
        (request (Str ''1'') Undefined (Str ''2'') Undefined Undefined) (blank 0) =
     (\<lparr>status = 200,
       body = Result [(''models'', [\<lparr>id_opt = ''1'', name_opt = ''Toyota''\<rparr>,
                                     \<lparr>id_opt = ''2'', name_opt = ''Nissan''\<rparr>])]\<rparr>,
      \<lparr>world = 0,
       calls = [Launch, NewPage,
          SetUserAgent ''Mozilla/5.0 (Windows NT 10.0; Win64; x64) AppleWebKit/537.36 (KHTML, like Gecko) Chrome/117.0.0.0 Safari/537.36'',
          SetDefaultNavigationTimeout 120000, Goto ''https://umvvs.tra.go.tz/'' 60000,
          Select ''#MainContent_ddlMake'' (Str ''1''),
          WaitForSelector ''#MainContent_UpdateProgress1'' VisibleTrue 5000,
          WaitForSelector ''#MainContent_ddlModel:not([disabled])'' Present 5000,
          Query ''#MainContent_UpdateProgress1'',
          WaitForSelector ''#MainContent_UpdateProgress1'' HiddenTrue 15000,
          WaitForSelector ''#MainContent_ddlModel:not([disabled])'' Present 15000,
          WaitForSelector ''#MainContent_ddlModel:not([disabled])'' Present 15000,
          EvalAll ''#MainContent_ddlModel option'', Close]\<rparr>)"
  by (simp add: models_at_rest) (simp add: contiguous_def identifiers_def request_def)

theorem c4_skipped_identifier_is_served_witness:
  "\<not> contiguous (request (Str ''1'') Undefined (Str ''2'') Undefined Undefined)
   \<and> truthy (makeId (request (Str ''1'') Undefined (Str ''2'') Undefined Undefined))
   \<and> dispatch (static_page at_rest) (request (Str ''1'') Undefined (Str ''2'') Undefined Undefined) (blank 0) =
       and_then (advance_all (static_page at_rest)
                   [(''#MainContent_ddlMake'', Str ''1'', ''#MainContent_ddlModel'')])
         (\<lambda>_. read_stage (static_page at_rest) 2) (blank 0)
   \<and> hd (calls (snd (scrape_options (static_page at_rest) False
         (request (Str ''1'') Undefined (Str ''2'') Undefined Undefined) (blank 0)))) = Launch"
proof -
  let ?q = "request (Str ''1'') Undefined (Str ''2'') Undefined Undefined"
  have n: "\<not> contiguous ?q" by (simp add: contiguous_def identifiers_def request_def)
  have m: "truthy (makeId ?q)" by (simp add: request_def)
  have d: "depth ?q = 1" by (simp add: depth_def identifiers_def request_def)
  from c4_skipped_identifier_is_served[OF n, of "static_page at_rest" False "blank 0"] m
  have "dispatch (static_page at_rest) ?q (blank 0) =
           and_then (advance_all (static_page at_rest) (take (depth ?q) (chain ?q)))
             (\<lambda>_. read_stage (static_page at_rest) (Suc (depth ?q))) (blank 0)"
    and l: "\<exists>cs. calls (snd (scrape_options (static_page at_rest) False ?q (blank 0))) =
              calls (blank 0 :: nat page) @ Launch # cs"
    by blast+
  then have e: "dispatch (static_page at_rest) ?q (blank 0) =
       and_then (advance_all (static_page at_rest)
                   [(''#MainContent_ddlMake'', Str ''1'', ''#MainContent_ddlModel'')])
         (\<lambda>_. read_stage (static_page at_rest) 2) (blank 0)"
    by (simp add: d chain_simp) (simp add: request_def numeral_2_eq_2)
  from l have h: "hd (calls (snd (scrape_options (static_page at_rest) False ?q (blank 0)))) = Launch"
    by (auto simp add: blank_def)
  from n m e h show ?thesis by (intro conjI)
qed

text \<open>
  C9, as amended. Every guard of the dispatch tests truthiness, so the branch taken is
  the same for an empty identifier as for an absent one; and for every request whose
  \<^verbatim>\<open>makeId\<close> is non-empty, or whose other four identifiers are all empty or absent,
  the whole handling is the same as if each empty identifier were absent. In particular
  \<^verbatim>\<open>makeId = ""\<close> alone is a depth-0 request and reads the Make OptionSet. In the
  remaining requests (the final \<^verbatim>\<open>else\<close> branch with an empty \<^verbatim>\<open>makeId\<close>) the values
  are passed on as supplied, and the counterexample shows \<^verbatim>\<open>""\<close> and \<^verbatim>\<open>undefined\<close>
  answered differently.
\<close>

theorem c9_empty_identifier_as_absent:
  assumes "truthy (makeId q) \<or> (\<not> truthy (modelId q) \<and> \<not> truthy (yearId q)
             \<and> \<not> truthy (countryId q) \<and> \<not> truthy (fuelId q))"
  shows "scrape_options E isProduction (without_empties q) p = scrape_options E isProduction q p
    \<and> depth (without_empties q) = depth q
    \<and> (\<not> truthy (makeId q) \<longrightarrow> dispatch E q p = read_stage E 1 p)"
proof -
  have a: "scrape_options E isProduction (without_empties q) p = scrape_options E isProduction q p"
    unfolding scrape_options_def dispatch_without_empties[OF assms] by (rule refl)
  have b: "depth (without_empties q) = depth q"
    by (simp add: depth_def identifiers_def)
  have c: "dispatch E q p = read_stage E 1 p" if "\<not> truthy (makeId q)"
    using that assms by (simp add: dispatch_none)
  from a b c show ?thesis by blast
qed

theorem c9_empty_identifier_counterexample:
  "without_empties (request (Str []) Undefined (Str ''x'') Undefined Undefined) =
     request Undefined Undefined (Str ''x'') Undefined Undefined
   \<and> fst (scrape_options (static_page at_rest) False
         (request (Str []) Undefined (Str ''x'') Undefined Undefined) (blank 0)) =
     \<lparr>status = 500,
      body = Failure ''Scraping failed''
               ''Failed to load #MainContent_ddlYear after selecting undefined''
               ''Try running with headless: false for debugging''\<rparr>
   \<and> fst (scrape_options (static_page at_rest) False
         (request Undefined Undefined (Str ''x'') Undefined Undefined) (blank 0)) =
     \<lparr>status = 500,
      body = Failure ''Scraping failed''
               ''Failed to load #MainContent_ddlModel after selecting undefined''
               ''Try running with headless: false for debugging''\<rparr>
   \<and> fst (scrape_options (static_page at_rest) False
         (request (Str []) Undefined (Str ''x'') Undefined Undefined) (blank 0)) \<noteq>
     fst (scrape_options (static_page at_rest) False
         (request Undefined Undefined (Str ''x'') Undefined Undefined) (blank 0))"
  by (simp add: empty_make_with_year_at_rest absent_make_with_year_at_rest)
     (simp add: without_empties_def absent_if_empty_def request_def)

theorem c9_empty_identifier_as_absent_witness:
  "\<not> truthy (makeId (request (Str []) Undefined Undefined Undefined Undefined))
   \<and> without_empties (request (Str []) Undefined Undefined Undefined Undefined) =
       request Undefined Undefined Undefined Undefined Undefined
   \<and> scrape_options (static_page at_rest) False
        (request Undefined Undefined Undefined Undefined Undefined) (blank 0) =
      scrape_options (static_page at_rest) False
        (request (Str []) Undefined Undefined Undefined Undefined) (blank 0)
   \<and> fst (scrape_options (static_page at_rest) False
        (request Undefined Undefined Undefined Undefined Undefined) (blank 0)) =
       \<lparr>status = 200,
        body = Result [(''makes'', [\<lparr>id_opt = ''1'', name_opt = ''Toyota''\<rparr>,
                                     \<lparr>id_opt = ''2'', name_opt = ''Nissan''\<rparr>])]\<rparr>"
proof -
  let ?q = "request (Str []) Undefined Undefined Undefined Undefined"
  have m: "\<not> truthy (makeId ?q)" by (simp add: request_def)
  have h: "truthy (makeId ?q) \<or> (\<not> truthy (modelId ?q) \<and> \<not> truthy (yearId ?q)
             \<and> \<not> truthy (countryId ?q) \<and> \<not> truthy (fuelId ?q))"
    by (simp add: request_def)
  have w: "without_empties ?q = request Undefined Undefined Undefined Undefined Undefined"
    by (simp add: without_empties_def absent_if_empty_def request_def)
  from c9_empty_identifier_as_absent[OF h, of "static_page at_rest" False "blank 0"]
  have "scrape_options (static_page at_rest) False (without_empties ?q) (blank 0) =
        scrape_options (static_page at_rest) False ?q (blank 0)"
    by blast
  then have e: "scrape_options (static_page at_rest) False
        (request Undefined Undefined Undefined Undefined Undefined) (blank 0) =
      scrape_options (static_page at_rest) False ?q (blank 0)"
    by (simp only: w)
  then have f: "fst (scrape_options (static_page at_rest) False
        (request Undefined Undefined Undefined Undefined Undefined) (blank 0)) =
       \<lparr>status = 200,
        body = Result [(''makes'', [\<lparr>id_opt = ''1'', name_opt = ''Toyota''\<rparr>,
                                     \<lparr>id_opt = ''2'', name_opt = ''Nissan''\<rparr>])]\<rparr>"
    by (simp add: makes_at_rest)
  from m w e f show ?thesis by (intro conjI)
qed

text \<open>
  C3. Whichever promise wins the race, \<^verbatim>\<open>waitForDropdownUpdate\<close> returns only
  through the final confirmation: when it succeeds, the last call it issued is the
  15-second wait for the target field to be enabled, and the target is enabled in the
  state it returns; and once the race has resolved and the wait for the hidden
  indicator, where issued, has resolved, that confirmation wait is issued. When the
  selection succeeds, the loading indicator never becomes visible, and the target field
  is enabled at some moment within the 5-second race window, the call succeeds (at the
  first such moment) rather than failing on the missing indicator.
\<close>

theorem c3_final_confirmation_and_fast_path:
  "(\<forall>u. fst (waitForDropdownUpdate E a v b p) = Inr u \<longrightarrow>
       last (calls (snd (waitForDropdownUpdate E a v b p))) =
         WaitForSelector (b @ '':not([disabled])'') Present 15000
     \<and> probe E (world (snd (waitForDropdownUpdate E a v b p))) (b @ '':not([disabled])'') \<noteq> Absent)
   \<and> (\<forall>w1 k. perform E (world p) (Select a v) = Inr w1
         \<and> (\<forall>i. probe E ((tick E ^^ i) w1) ''#MainContent_UpdateProgress1'' \<noteq> Visible)
         \<and> k < 5000
         \<and> probe E ((tick E ^^ k) w1) (b @ '':not([disabled])'') \<noteq> Absent \<longrightarrow>
       fst (waitForDropdownUpdate E a v b p) = Inr ()
     \<and> (\<exists>j\<le>k. world (snd (waitForDropdownUpdate E a v b p)) = (tick E ^^ j) w1)
     \<and> last (calls (snd (waitForDropdownUpdate E a v b p))) =
         WaitForSelector (b @ '':not([disabled])'') Present 15000)
   \<and> (\<forall>w1. perform E (world p) (Select a v) = Inr w1 \<longrightarrow>
        (let r = race (settle E w1 ''#MainContent_UpdateProgress1'' VisibleTrue 5000)
                   (settle E w1 (b @ '':not([disabled])'') Present 5000);
             w2 = (tick E ^^ settles r) w1;
             h = settle E w2 ''#MainContent_UpdateProgress1'' HiddenTrue 15000
         in rejection r = None
            \<and> (probe E w2 ''#MainContent_UpdateProgress1'' = Absent \<or> rejection h = None) \<longrightarrow>
            WaitForSelector (b @ '':not([disabled])'') Present 15000
              \<in> set (calls (snd (waitForDropdownUpdate E a v b p)))))"
proof (intro conjI allI impI)
  fix u assume "fst (waitForDropdownUpdate E a v b p) = Inr u"
  from wfdu_ok_confirmed[OF this]
  show "last (calls (snd (waitForDropdownUpdate E a v b p))) =
         WaitForSelector (b @ '':not([disabled])'') Present 15000"
    and "probe E (world (snd (waitForDropdownUpdate E a v b p))) (b @ '':not([disabled])'') \<noteq> Absent"
    by simp_all
next
  fix w1 k
  assume h: "perform E (world p) (Select a v) = Inr w1
         \<and> (\<forall>i. probe E ((tick E ^^ i) w1) ''#MainContent_UpdateProgress1'' \<noteq> Visible)
         \<and> k < 5000
         \<and> probe E ((tick E ^^ k) w1) (b @ '':not([disabled])'') \<noteq> Absent"
  then obtain j where j: "j \<le> k" "waitForDropdownUpdate E a v b p =
     (Inr (), \<lparr>world = (tick E ^^ j) w1,
               calls = calls p @
                 [Select a v,
                  WaitForSelector ''#MainContent_UpdateProgress1'' VisibleTrue 5000,
                  WaitForSelector (b @ '':not([disabled])'') Present 5000,
                  Query ''#MainContent_UpdateProgress1''] @
                 (if probe E ((tick E ^^ j) w1) ''#MainContent_UpdateProgress1'' \<noteq> Absent
                  then [WaitForSelector ''#MainContent_UpdateProgress1'' HiddenTrue 15000] else []) @
                 [WaitForSelector (b @ '':not([disabled])'') Present 15000]\<rparr>)"
    using wfdu_fast_path[of E p a v w1 k b] by blast
  from j(2) show "fst (waitForDropdownUpdate E a v b p) = Inr ()" by simp
  from j show "\<exists>j\<le>k. world (snd (waitForDropdownUpdate E a v b p)) = (tick E ^^ j) w1"
    by auto
  from j(2) show "last (calls (snd (waitForDropdownUpdate E a v b p))) =
         WaitForSelector (b @ '':not([disabled])'') Present 15000"
    by simp
next
  fix w1
  assume "perform E (world p) (Select a v) = Inr w1"
  then show "let r = race (settle E w1 ''#MainContent_UpdateProgress1'' VisibleTrue 5000)
                   (settle E w1 (b @ '':not([disabled])'') Present 5000);
             w2 = (tick E ^^ settles r) w1;
             h = settle E w2 ''#MainContent_UpdateProgress1'' HiddenTrue 15000
         in rejection r = None
            \<and> (probe E w2 ''#MainContent_UpdateProgress1'' = Absent \<or> rejection h = None) \<longrightarrow>
            WaitForSelector (b @ '':not([disabled])'') Present 15000
              \<in> set (calls (snd (waitForDropdownUpdate E a v b p)))"
    by (rule wfdu_confirmation_issued)
qed

theorem c3_final_confirmation_and_fast_path_witness:
  "perform slow_page 0 (Select ''#MainContent_ddlMake'' (Str ''7'')) = Inr 0
   \<and> probe slow_page 99 ''#MainContent_ddlModel:not([disabled])'' = Absent
   \<and> probe slow_page 100 ''#MainContent_ddlModel:not([disabled])'' = Visible
   \<and> probe slow_page 100 ''#MainContent_UpdateProgress1'' = Hidden
   \<and> fst (waitForDropdownUpdate slow_page ''#MainContent_ddlMake'' (Str ''7'')
            ''#MainContent_ddlModel'' (blank 0)) = Inr ()
   \<and> last (calls (snd (waitForDropdownUpdate slow_page ''#MainContent_ddlMake'' (Str ''7'')
            ''#MainContent_ddlModel'' (blank 0)))) =
       WaitForSelector ''#MainContent_ddlModel:not([disabled])'' Present 15000"
proof -
  have s: "perform slow_page (world (blank 0)) (Select ''#MainContent_ddlMake'' (Str ''7'')) = Inr 0"
    by (simp add: restart_clock_def blank_def)
  have n: "\<forall>i. probe slow_page ((tick slow_page ^^ i) 0) ''#MainContent_UpdateProgress1'' \<noteq> Visible"
    by simp
  have k: "(100::nat) < 5000" by simp
  have e: "probe slow_page ((tick slow_page ^^ 100) 0) (''#MainContent_ddlModel'' @ '':not([disabled])'') \<noteq> Absent"
    by simp
  from c3_final_confirmation_and_fast_path[of slow_page "''#MainContent_ddlMake''" "Str ''7''"
      "''#MainContent_ddlModel''" "blank 0"] s n k e
  have "fst (waitForDropdownUpdate slow_page ''#MainContent_ddlMake'' (Str ''7'')
            ''#MainContent_ddlModel'' (blank 0)) = Inr ()
     \<and> last (calls (snd (waitForDropdownUpdate slow_page ''#MainContent_ddlMake'' (Str ''7'')
            ''#MainContent_ddlModel'' (blank 0)))) =
         WaitForSelector (''#MainContent_ddlModel'' @ '':not([disabled])'') Present 15000"
    by blast
  with s show ?thesis by (simp add: blank_def)
qed

text \<open>
  C6, as amended. Whatever fails inside \<^verbatim>\<open>waitForDropdownUpdate\<close>, the call fails
  with the error \<^verbatim>\<open>Failed to load <target> after selecting <value>\<close>, which names
  the target selector and the attempted value; the trigger selector appears only in the
  line written to the console. A \<^verbatim>\<open>page.select\<close> that throws makes the call fail at
  once, with no wait issued. The call fails when the race, the wait for the hidden
  indicator (where issued) or the final confirmation rejects, hence when the indicator
  stays visible and when the target field never becomes enabled. It issues exactly one
  \<^verbatim>\<open>page.select\<close> in every case, so nothing is retried. The counterexample is a
  timeout of the race on a form whose Make field is there and whose Model field never
  becomes enabled: the error does not mention the trigger selector.
\<close>

theorem c6_advance_failure:
  "(\<forall>e. fst (waitForDropdownUpdate E a v b p) = Inl e \<longrightarrow>
       e = Error (''Failed to load '' @ b @ '' after selecting '' @ to_string v)
     \<and> (\<exists>err. last (calls (snd (waitForDropdownUpdate E a v b p))) =
           ConsoleError (''Dropdown update failed from '' @ a @ '' to '' @ b @ '':'') err))
   \<and> selects (calls (snd (waitForDropdownUpdate E a v b p))) = selects (calls p) @ [(a, v)]
   \<and> (\<forall>x. perform E (world p) (Select a v) = Inl x \<longrightarrow>
        waitForDropdownUpdate E a v b p =
          (Inl (Error (''Failed to load '' @ b @ '' after selecting '' @ to_string v)),
           \<lparr>world = world p,
            calls = calls p @
              [Select a v,
               ConsoleError (''Dropdown update failed from '' @ a @ '' to '' @ b @ '':'') x]\<rparr>))
   \<and> (\<forall>w1. perform E (world p) (Select a v) = Inr w1 \<longrightarrow>
        (let r = race (settle E w1 ''#MainContent_UpdateProgress1'' VisibleTrue 5000)
                   (settle E w1 (b @ '':not([disabled])'') Present 5000);
             w2 = (tick E ^^ settles r) w1;
             h = settle E w2 ''#MainContent_UpdateProgress1'' HiddenTrue 15000;
             w3 = (if probe E w2 ''#MainContent_UpdateProgress1'' \<noteq> Absent
                   then (tick E ^^ settles h) w2 else w2)
         in rejection r \<noteq> None
            \<or> probe E w2 ''#MainContent_UpdateProgress1'' \<noteq> Absent \<and> rejection h \<noteq> None
            \<or> rejection (settle E w3 (b @ '':not([disabled])'') Present 15000) \<noteq> None \<longrightarrow>
            fst (waitForDropdownUpdate E a v b p) =
              Inl (Error (''Failed to load '' @ b @ '' after selecting '' @ to_string v))))
   \<and> (\<forall>w1. perform E (world p) (Select a v) = Inr w1
         \<and> (\<forall>i. probe E ((tick E ^^ i) w1) ''#MainContent_UpdateProgress1'' = Visible) \<longrightarrow>
       fst (waitForDropdownUpdate E a v b p) =
         Inl (Error (''Failed to load '' @ b @ '' after selecting '' @ to_string v)))
   \<and> (\<forall>w1. perform E (world p) (Select a v) = Inr w1
         \<and> (\<forall>i. probe E ((tick E ^^ i) w1) (b @ '':not([disabled])'') = Absent) \<longrightarrow>
       fst (waitForDropdownUpdate E a v b p) =
         Inl (Error (''Failed to load '' @ b @ '' after selecting '' @ to_string v)))"
proof (intro conjI allI impI)
  fix e assume f: "fst (waitForDropdownUpdate E a v b p) = Inl e"
  from wfdu_message[OF f]
  show "e = Error (''Failed to load '' @ b @ '' after selecting '' @ to_string v)" .
  from wfdu_failure_logged[OF f]
  show "\<exists>err. last (calls (snd (waitForDropdownUpdate E a v b p))) =
           ConsoleError (''Dropdown update failed from '' @ a @ '' to '' @ b @ '':'') err" .
next
  show "selects (calls (snd (waitForDropdownUpdate E a v b p))) = selects (calls p) @ [(a, v)]"
    by (rule wfdu_selects)
next
  fix x
  assume "perform E (world p) (Select a v) = Inl x"
  then show "waitForDropdownUpdate E a v b p =
          (Inl (Error (''Failed to load '' @ b @ '' after selecting '' @ to_string v)),
           \<lparr>world = world p,
            calls = calls p @
              [Select a v,
               ConsoleError (''Dropdown update failed from '' @ a @ '' to '' @ b @ '':'') x]\<rparr>)"
    by (rule wfdu_select_throws)
next
  fix w1
  assume "perform E (world p) (Select a v) = Inr w1"
  then show "let r = race (settle E w1 ''#MainContent_UpdateProgress1'' VisibleTrue 5000)
                   (settle E w1 (b @ '':not([disabled])'') Present 5000);
             w2 = (tick E ^^ settles r) w1;
             h = settle E w2 ''#MainContent_UpdateProgress1'' HiddenTrue 15000;
             w3 = (if probe E w2 ''#MainContent_UpdateProgress1'' \<noteq> Absent
                   then (tick E ^^ settles h) w2 else w2)
         in rejection r \<noteq> None
            \<or> probe E w2 ''#MainContent_UpdateProgress1'' \<noteq> Absent \<and> rejection h \<noteq> None
            \<or> rejection (settle E w3 (b @ '':not([disabled])'') Present 15000) \<noteq> None \<longrightarrow>
            fst (waitForDropdownUpdate E a v b p) =
              Inl (Error (''Failed to load '' @ b @ '' after selecting '' @ to_string v))"
    by (rule wfdu_step_rejects)
next
  fix w1
  assume "perform E (world p) (Select a v) = Inr w1
         \<and> (\<forall>i. probe E ((tick E ^^ i) w1) ''#MainContent_UpdateProgress1'' = Visible)"
  then show "fst (waitForDropdownUpdate E a v b p) =
         Inl (Error (''Failed to load '' @ b @ '' after selecting '' @ to_string v))"
    using wfdu_indicator_never_hidden[of E p a v w1 b] by blast
next
  fix w1
  assume "perform E (world p) (Select a v) = Inr w1
         \<and> (\<forall>i. probe E ((tick E ^^ i) w1) (b @ '':not([disabled])'') = Absent)"
  then show "fst (waitForDropdownUpdate E a v b p) =
         Inl (Error (''Failed to load '' @ b @ '' after selecting '' @ to_string v))"
    using wfdu_target_never_enabled[of E p a v w1 b] by blast
qed

theorem c6_advance_failure_counterexample:
  "probe (static_page stuck) 0 ''#MainContent_ddlMake'' = Visible
   \<and> perform (static_page stuck) 0 (Select ''#MainContent_ddlMake'' (Str ''7'')) = Inr 0
   \<and> rejection (race (settle (static_page stuck) 0 ''#MainContent_UpdateProgress1'' VisibleTrue 5000)
                     (settle (static_page stuck) 0 ''#MainContent_ddlModel:not([disabled])'' Present 5000)) =
       Some (Error ''Waiting for selector #MainContent_UpdateProgress1 failed'')
   \<and> fst (waitForDropdownUpdate (static_page stuck) ''#MainContent_ddlMake'' (Str ''7'')
          ''#MainContent_ddlModel'' (blank 0)) =
     Inl (Error ''Failed to load #MainContent_ddlModel after selecting 7'')
   \<and> \<not> mentions ''Failed to load #MainContent_ddlModel after selecting 7'' ''#MainContent_ddlMake''
   \<and> mentions ''Failed to load #MainContent_ddlModel after selecting 7'' ''#MainContent_ddlModel''
   \<and> mentions ''Failed to load #MainContent_ddlModel after selecting 7'' ''7''"
  by (simp add: wfdu_stuck) (simp add: settle_def race_def stuck_def)

theorem c6_advance_failure_witness:
  "perform (static_page stuck) 0 (Select ''#MainContent_ddlMake'' (Str ''7'')) = Inr 0
   \<and> probe (static_page stuck) 0 ''#MainContent_ddlModel:not([disabled])'' = Absent
   \<and> fst (waitForDropdownUpdate (static_page stuck) ''#MainContent_ddlMake'' (Str ''7'')
          ''#MainContent_ddlModel'' (blank 0)) =
       Inl (Error ''Failed to load #MainContent_ddlModel after selecting 7'')
   \<and> selects (calls (snd (waitForDropdownUpdate (static_page stuck) ''#MainContent_ddlMake''
          (Str ''7'') ''#MainContent_ddlModel'' (blank 0)))) = [(''#MainContent_ddlMake'', Str ''7'')]
   \<and> perform (static_page stuck) 0 (Select ''#MainContent_ddlMake'' Undefined) =
       Inl (Error ''Values must be strings'')
   \<and> waitForDropdownUpdate (static_page stuck) ''#MainContent_ddlMake'' Undefined
          ''#MainContent_ddlModel'' (blank 0) =
       (Inl (Error ''Failed to load #MainContent_ddlModel after selecting undefined''),
        \<lparr>world = 0,
         calls = [Select ''#MainContent_ddlMake'' Undefined,
                  ConsoleError ''Dropdown update failed from #MainContent_ddlMake to #MainContent_ddlModel:''
                    (Error ''Values must be strings'')]\<rparr>)"
proof -
  have s: "perform (static_page stuck) (world (blank 0)) (Select ''#MainContent_ddlMake'' (Str ''7'')) = Inr 0"
    by (simp add: blank_def)
  have n: "\<forall>i. probe (static_page stuck) ((tick (static_page stuck) ^^ i) 0)
             (''#MainContent_ddlModel'' @ '':not([disabled])'') = Absent"
    by (simp add: stuck_def)
  from c6_advance_failure[of "static_page stuck" "''#MainContent_ddlMake''" "Str ''7''"
      "''#MainContent_ddlModel''" "blank 0"] s n
  have a: "fst (waitForDropdownUpdate (static_page stuck) ''#MainContent_ddlMake'' (Str ''7'')
          ''#MainContent_ddlModel'' (blank 0)) =
         Inl (Error (''Failed to load '' @ ''#MainContent_ddlModel'' @ '' after selecting '' @ to_string (Str ''7'')))"
    and b: "selects (calls (snd (waitForDropdownUpdate (static_page stuck) ''#MainContent_ddlMake''
          (Str ''7'') ''#MainContent_ddlModel'' (blank 0)))) =
         selects (calls (blank 0 :: nat page)) @ [(''#MainContent_ddlMake'', Str ''7'')]"
    by blast+
  have u: "perform (static_page stuck) (world (blank 0)) (Select ''#MainContent_ddlMake'' Undefined) =
       Inl (Error ''Values must be strings'')"
    by (simp add: blank_def)
  from c6_advance_failure[of "static_page stuck" "''#MainContent_ddlMake''" Undefined
      "''#MainContent_ddlModel''" "blank 0"] u
  have c: "waitForDropdownUpdate (static_page stuck) ''#MainContent_ddlMake'' Undefined
          ''#MainContent_ddlModel'' (blank 0) =
          (Inl (Error (''Failed to load '' @ ''#MainContent_ddlModel'' @ '' after selecting '' @ to_string Undefined)),
           \<lparr>world = world (blank 0),
            calls = calls (blank 0 :: nat page) @
              [Select ''#MainContent_ddlMake'' Undefined,
               ConsoleError (''Dropdown update failed from '' @ ''#MainContent_ddlMake'' @ '' to '' @ ''#MainContent_ddlModel'' @ '':'')
                 (Error ''Values must be strings'')]\<rparr>)"
    by blast
  have s': "perform (static_page stuck) 0 (Select ''#MainContent_ddlMake'' (Str ''7'')) = Inr 0"
    and n': "probe (static_page stuck) 0 ''#MainContent_ddlModel:not([disabled])'' = Absent"
    and u': "perform (static_page stuck) 0 (Select ''#MainContent_ddlMake'' Undefined) =
       Inl (Error ''Values must be strings'')"
    by (simp_all add: stuck_def)
  from a have a': "fst (waitForDropdownUpdate (static_page stuck) ''#MainContent_ddlMake'' (Str ''7'')
          ''#MainContent_ddlModel'' (blank 0)) =
       Inl (Error ''Failed to load #MainContent_ddlModel after selecting 7'')"
    by simp
  from b have b': "selects (calls (snd (waitForDropdownUpdate (static_page stuck) ''#MainContent_ddlMake''
          (Str ''7'') ''#MainContent_ddlModel'' (blank 0)))) = [(''#MainContent_ddlMake'', Str ''7'')]"
    by (simp add: blank_def)
  from c have c': "waitForDropdownUpdate (static_page stuck) ''#MainContent_ddlMake'' Undefined
          ''#MainContent_ddlModel'' (blank 0) =
       (Inl (Error ''Failed to load #MainContent_ddlModel after selecting undefined''),
        \<lparr>world = 0,
         calls = [Select ''#MainContent_ddlMake'' Undefined,
                  ConsoleError ''Dropdown update failed from #MainContent_ddlMake to #MainContent_ddlModel:''
                    (Error ''Values must be strings'')]\<rparr>)"
    by (simp add: blank_def)
  from s' n' a' b' u' c' show ?thesis by (intro conjI)
qed

text \<open>
  C2. The code tests \<^verbatim>\<open>page.$\<close>, which finds the loading indicator whenever it is
  in the DOM, visible or not. On a page at rest, whose indicator is in the DOM but
  hidden, the wait for the visible indicator rejects (the indicator is never observed),
  the race is won by the enabled target, and still the 15-second wait for the hidden
  indicator is issued before the final confirmation.
\<close>

theorem c2_hidden_wait_without_visible_indicator:
  "probe (static_page at_rest) 0 ''#MainContent_UpdateProgress1'' = Hidden
   \<and> tick (static_page at_rest) 0 = 0
   \<and> rejection (settle (static_page at_rest) 0 ''#MainContent_UpdateProgress1'' VisibleTrue 5000) =
       Some (Error ''Waiting for selector #MainContent_UpdateProgress1 failed'')
   \<and> waitForDropdownUpdate (static_page at_rest) ''#MainContent_ddlMake'' (Str ''1'')
        ''#MainContent_ddlModel'' (blank 0) =
       (Inr (), \<lparr>world = 0,
          calls = [Select ''#MainContent_ddlMake'' (Str ''1''),
                   WaitForSelector ''#MainContent_UpdateProgress1'' VisibleTrue 5000,
                   WaitForSelector ''#MainContent_ddlModel:not([disabled])'' Present 5000,
                   Query ''#MainContent_UpdateProgress1'',
                   WaitForSelector ''#MainContent_UpdateProgress1'' HiddenTrue 15000,
                   WaitForSelector ''#MainContent_ddlModel:not([disabled])'' Present 15000]\<rparr>)"
  by (simp add: wfdu_at_rest blank_def) (simp add: settle_def at_rest_def)

text \<open>
  C7. The response of the handler is either the complete result with status 200 or an
  error with status 500, never a partial result. Status 200 is sent only when the
  launch, the opening of the form, every advance and the read have all succeeded, and
  its body is the one OptionSet read last. Any failure gives status 500 with a body
  that carries no option at all; when the failure is that of an advance or of the read,
  its \<^verbatim>\<open>details\<close> is the message of that error: the target selector and the value of
  the failed advance, or the timeout of the read on the stage's selector.
\<close>

theorem c7_failure_aborts_resolution:
  "(status (fst (scrape_options E isProduction q p)) = 200
      \<or> status (fst (scrape_options E isProduction q p)) = 500)
   \<and> (status (fst (scrape_options E isProduction q p)) = 500 \<longrightarrow>
        options_in (body (fst (scrape_options E isProduction q p))) = []
      \<and> (\<exists>e. fst (scrape_options E isProduction q p) = failure_response isProduction e))
   \<and> (status (fst (scrape_options E isProduction q p)) = 200 \<longrightarrow>
        (\<exists>w p1 r p2. perform E (world p) Launch = Inr w
           \<and> open_form E \<lparr>world = w, calls = calls p @ [Launch]\<rparr> = (Inr (), p1)
           \<and> dispatch E q p1 = (Inr r, p2)
           \<and> body (fst (scrape_options E isProduction q p)) = Result r
           \<and> (\<exists>key os. r = [(key, os)])))
   \<and> (\<forall>w p1 e. perform E (world p) Launch = Inr w
         \<and> open_form E \<lparr>world = w, calls = calls p @ [Launch]\<rparr> = (Inr (), p1)
         \<and> fst (dispatch E q p1) = Inl e \<longrightarrow>
        fst (scrape_options E isProduction q p) = failure_response isProduction e
      \<and> ((\<exists>a v b. (a, v, b) \<in> set (chain q)
             \<and> e = Error (''Failed to load '' @ b @ '' after selecting '' @ to_string v))
         \<or> (\<exists>k<6. e = timeout_error E (fst (stages ! k) @ '':not([disabled])'') 15000)))"
proof (intro conjI allI impI)
  let ?R = "fst (scrape_options E isProduction q p)"
  from scrape_options_status[of E isProduction q p]
  show "status ?R = 200 \<or> status ?R = 500"
    by (auto simp add: failure_response_def)
next
  let ?R = "fst (scrape_options E isProduction q p)"
  assume s: "status ?R = 500"
  with scrape_options_status[of E isProduction q p]
  show e: "\<exists>e. ?R = failure_response isProduction e" by auto
  then show "options_in (body ?R) = []"
    by (auto simp add: failure_response_def)
next
  let ?R = "fst (scrape_options E isProduction q p)"
  assume "status ?R = 200"
  from scrape_options_ok[OF this] obtain w p1 r p2 where
    ok: "perform E (world p) Launch = Inr w"
        "open_form E \<lparr>world = w, calls = calls p @ [Launch]\<rparr> = (Inr (), p1)"
        "dispatch E q p1 = (Inr r, p2)"
        "scrape_options E isProduction q p =
           (\<lparr>status = 200, body = Result r\<rparr>, p2\<lparr>calls := calls p2 @ [Close]\<rparr>)"
    by blast
  from ok(3) have "fst (dispatch E q p1) = Inr r" by simp
  from dispatch_single_key[OF this] ok
  show "\<exists>w p1 r p2. perform E (world p) Launch = Inr w
           \<and> open_form E \<lparr>world = w, calls = calls p @ [Launch]\<rparr> = (Inr (), p1)
           \<and> dispatch E q p1 = (Inr r, p2)
           \<and> body ?R = Result r
           \<and> (\<exists>key os. r = [(key, os)])"
    by auto
next
  fix w p1 e
  assume h: "perform E (world p) Launch = Inr w
         \<and> open_form E \<lparr>world = w, calls = calls p @ [Launch]\<rparr> = (Inr (), p1)
         \<and> fst (dispatch E q p1) = Inl e"
  then show "fst (scrape_options E isProduction q p) = failure_response isProduction e"
    using scrape_options_dispatch_failure[of E p w p1 q e isProduction] by blast
  from h dispatch_failure[of E q p1 e]
  show "(\<exists>a v b. (a, v, b) \<in> set (chain q)
             \<and> e = Error (''Failed to load '' @ b @ '' after selecting '' @ to_string v))
         \<or> (\<exists>k<6. e = timeout_error E (fst (stages ! k) @ '':not([disabled])'') 15000)"
    by blast
qed

theorem c7_failure_aborts_resolution_witness:
  "perform (static_page at_rest) 0 Launch = Inr 0
   \<and> fst (waitForDropdownUpdate (static_page at_rest) ''#MainContent_ddlMake'' (Str [])
            ''#MainContent_ddlModel'' (blank 0)) = Inr ()
   \<and> fst (scrape_options (static_page at_rest) False
            (request (Str []) Undefined (Str ''x'') Undefined Undefined) (blank 0)) =
       failure_response False (Error ''Failed to load #MainContent_ddlYear after selecting undefined'')
   \<and> status (fst (scrape_options (static_page at_rest) False
            (request (Str []) Undefined (Str ''x'') Undefined Undefined) (blank 0))) = 500
   \<and> options_in (body (fst (scrape_options (static_page at_rest) False
            (request (Str []) Undefined (Str ''x'') Undefined Undefined) (blank 0)))) = []"
proof -
  let ?q = "request (Str []) Undefined (Str ''x'') Undefined Undefined"
  let ?D = "static_page at_rest"
  let ?p1 = "\<lparr>world = 0, calls = calls (blank 0 :: nat page) @ [Launch] @ [NewPage,
          SetUserAgent ''Mozilla/5.0 (Windows NT 10.0; Win64; x64) AppleWebKit/537.36 (KHTML, like Gecko) Chrome/117.0.0.0 Safari/537.36'',
          SetDefaultNavigationTimeout 120000, Goto ''https://umvvs.tra.go.tz/'' 60000]\<rparr>"
  have l: "perform ?D (world (blank 0)) Launch = Inr 0"
    by (simp add: blank_def)
  have o: "open_form ?D \<lparr>world = 0, calls = calls (blank 0 :: nat page) @ [Launch]\<rparr> = (Inr (), ?p1)"
    by (simp only: open_form_at_rest append_assoc)
  have d: "fst (dispatch ?D ?q ?p1) =
      Inl (Error ''Failed to load #MainContent_ddlYear after selecting undefined'')"
    by (rule model_step_fails_at_rest)
  have first: "fst (waitForDropdownUpdate ?D ''#MainContent_ddlMake'' (Str [])
            ''#MainContent_ddlModel'' (blank 0)) = Inr ()"
    by (simp add: wfdu_at_rest)
  from c7_failure_aborts_resolution[of ?D False ?q "blank 0"] l o d
  have r: "fst (scrape_options ?D False ?q (blank 0)) =
      failure_response False (Error ''Failed to load #MainContent_ddlYear after selecting undefined'')"
    by blast
  then have s: "status (fst (scrape_options ?D False ?q (blank 0))) = 500"
    by (simp add: failure_response_def)
  with c7_failure_aborts_resolution[of ?D False ?q "blank 0"]
  have n: "options_in (body (fst (scrape_options ?D False ?q (blank 0)))) = []"
    by blast
  from l have l': "perform ?D 0 Launch = Inr 0" by (simp add: blank_def)
  from l' first r s n show ?thesis by (intro conjI)
qed



end
